theory Spec2Isabelle
  imports Main "HOL-Library.Monad_Syntax"
begin

section \<open>Data model\<close>

text \<open>
  The platform classes \<open>Request\<close> and \<open>Response\<close>, reduced to the parts the program reads
  or writes.  A request body is only ever built by
  \<^verbatim>\<open>JSON.stringify({ refresh_token: ... })\<close>; it is kept as the list of string fields of
  the object that is serialised.  \<^verbatim>\<open>new Request(url)\<close> has method GET, no body and no
  headers; the field \<^verbatim>\<open>method\<close> is \<open>method_name\<close> here.  A request is a value: sending
  it or copying it does not use it up.
\<close>

record Request =
  url :: string
  method_name :: string
  body :: "(string \<times> string) list option"
  headers :: "(string \<times> string) list"

text \<open>\<^verbatim>\<open>interface Device { id: number; name: string }\<close>\<close>

record Device =
  id_num :: int
  name :: string

text \<open>
  What \<^verbatim>\<open>resp.json().then((json) => json.data)\<close> yields.  \<open>TokenData\<close> is data seen
  through its fields \<^verbatim>\<open>token\<close> and \<^verbatim>\<open>refresh_token\<close>: each is a string, or \<open>None\<close>
  where the data has no such field (the read gives \<^verbatim>\<open>undefined\<close>).  \<open>DeviceData\<close> is an
  array of devices.  \<open>NoData\<close> is a body without data: \<^verbatim>\<open>json()\<close> rejects, or
  \<^verbatim>\<open>json.data\<close> is \<^verbatim>\<open>undefined\<close>.  Field values that are neither strings nor missing
  are not represented.
\<close>

datatype payload = NoData | TokenData "string option" "string option" | DeviceData "Device list"

text \<open>
  \<^verbatim>\<open>data.token\<close> and \<^verbatim>\<open>data.refresh_token\<close> as \<open>refreshToken\<close> reads them, with no
  check of the shape: on an array both reads give \<^verbatim>\<open>undefined\<close>; without data the read
  throws.
\<close>

fun data_fields :: "payload \<Rightarrow> (string option \<times> string option) option" where
  "data_fields NoData = None"
| "data_fields (TokenData token refresh_token) = Some (token, refresh_token)"
| "data_fields (DeviceData devices) = Some (None, None)"

record Response =
  status :: nat
  json :: payload

text \<open>The getter \<^verbatim>\<open>Response.ok\<close> of the platform: the status is in the range 200-299.\<close>

definition ok :: "Response \<Rightarrow> bool" where
  "ok resp = (200 \<le> status resp \<and> status resp \<le> 299)"

text \<open>
  The values the program throws: \<^verbatim>\<open>Error(`request error: ${url}`)\<close>, the rejection of
  \<^verbatim>\<open>fetch\<close> under an aborted signal, and \<open>ParseError\<close> for a body whose data cannot be
  read: \<open>refreshToken\<close> on a body without data, \<open>fetchActiveDevices\<close> on data that is
  not an array of devices (the source returns such data as it is; it has no value of the
  type \<open>Device list\<close>).
\<close>

datatype error = RequestError string | AbortError | ParseError

text \<open>
  What happens to the \<open>k\<close>-th call handed to the network: the server answers, or the host
  disposes the client while the call is pending.
\<close>

datatype event = Responds Response | Disposes

type_synonym transport = "nat \<Rightarrow> event"

text \<open>
  The state the program runs in: the key-value store behind \<^verbatim>\<open>LocalStorage\<close>, the requests
  handed to \<^verbatim>\<open>fetch\<close> so far, the lines given to the logger, and
  \<^verbatim>\<open>abortController.signal.aborted\<close>.
\<close>

record world =
  storage :: "string \<rightharpoonup> string"
  calls :: "Request list"
  logs :: "string list"
  aborted :: bool

type_synonym 'a outcome = "(error + 'a) \<times> world"

section \<open>Token store\<close>

record TokenStore =
  defaultToken :: string
  defaultRefreshToken :: string

definition KEY_TOKEN :: string where
  "KEY_TOKEN = ''Token''"

definition KEY_REFRESH_TOKEN :: string where
  "KEY_REFRESH_TOKEN = ''RefreshToken''"

text \<open>\<^verbatim>\<open>LocalStorage.getItem\<close> yields \<^verbatim>\<open>undefined\<close> (here \<open>None\<close>) for an absent key.\<close>

definition getItem :: "string \<Rightarrow> world \<Rightarrow> string option" where
  "getItem k w = storage w k"

definition setItem :: "string \<Rightarrow> string \<Rightarrow> world \<Rightarrow> world" where
  "setItem k v w = w\<lparr>storage := (storage w)(k \<mapsto> v)\<rparr>"

text \<open>\<^verbatim>\<open>(await LocalStorage.getItem(KEY)) ?? default\<close>: the default replaces
  \<^verbatim>\<open>undefined\<close> only.\<close>

definition getToken :: "TokenStore \<Rightarrow> world \<Rightarrow> string" where
  "getToken ts w = (case getItem KEY_TOKEN w of None \<Rightarrow> defaultToken ts | Some v \<Rightarrow> v)"

definition getRefreshToken :: "TokenStore \<Rightarrow> world \<Rightarrow> string" where
  "getRefreshToken ts w =
     (case getItem KEY_REFRESH_TOKEN w of None \<Rightarrow> defaultRefreshToken ts | Some v \<Rightarrow> v)"

text \<open>\<^verbatim>\<open>Promise.all([setItem(KEY_TOKEN, token), setItem(KEY_REFRESH_TOKEN, refreshToken)])\<close>:
  both writes are done when the call returns.\<close>

definition updateTokens :: "string \<Rightarrow> string \<Rightarrow> world \<Rightarrow> world" where
  "updateTokens token refreshToken w =
     setItem KEY_REFRESH_TOKEN refreshToken (setItem KEY_TOKEN token w)"

text \<open>A run of \<open>updateTokens\<close> calls, oldest first.\<close>

fun updateTokens_all :: "(string \<times> string) list \<Rightarrow> world \<Rightarrow> world" where
  "updateTokens_all [] w = w"
| "updateTokens_all ((token, refreshToken) # ps) w =
     updateTokens_all ps (updateTokens token refreshToken w)"

text \<open>
  \<open>updateTokens\<close> at the values the pipeline hands it at run time, where a field may be
  \<^verbatim>\<open>undefined\<close>.  \<^verbatim>\<open>LocalStorage.setItem(k, undefined)\<close> is taken as the
  \<^verbatim>\<open>LocalStorage\<close> of the repository's tests has it (\<^verbatim>\<open>kv[k] = v\<close>): the key reads as
  \<^verbatim>\<open>undefined\<close> afterwards.  On two strings this is \<open>updateTokens\<close>.
\<close>

definition setItem_any :: "string \<Rightarrow> string option \<Rightarrow> world \<Rightarrow> world" where
  "setItem_any k v w = w\<lparr>storage := (storage w)(k := v)\<rparr>"

definition updateTokens_any :: "string option \<Rightarrow> string option \<Rightarrow> world \<Rightarrow> world" where
  "updateTokens_any token refreshToken w =
     setItem_any KEY_REFRESH_TOKEN refreshToken (setItem_any KEY_TOKEN token w)"

text \<open>A run of such calls, oldest first.\<close>

fun updateTokens_any_all :: "(string option \<times> string option) list \<Rightarrow> world \<Rightarrow> world" where
  "updateTokens_any_all [] w = w"
| "updateTokens_any_all ((token, refreshToken) # ps) w =
     updateTokens_any_all ps (updateTokens_any token refreshToken w)"

text \<open>A value that is a string, and not the empty one.\<close>

definition nonempty_string :: "string option \<Rightarrow> bool" where
  "nonempty_string v = (case v of None \<Rightarrow> False | Some s \<Rightarrow> s \<noteq> [])"

text \<open>Both reads return a non-empty string.\<close>

definition tokens_nonempty :: "TokenStore \<Rightarrow> world \<Rightarrow> bool" where
  "tokens_nonempty ts w = (getToken ts w \<noteq> [] \<and> getRefreshToken ts w \<noteq> [])"

section \<open>Request pipeline\<close>

definition logger :: "string \<Rightarrow> world \<Rightarrow> world" where
  "logger text w = w\<lparr>logs := logs w @ [text]\<rparr>"

text \<open>\<^verbatim>\<open>new Request(request, { headers: { Authorization: `Bearer ${token}`, Accept: ... } })\<close>:
  a copy of the request whose headers are the two given ones.\<close>

definition authorized :: "string \<Rightarrow> Request \<Rightarrow> Request" where
  "authorized token req =
     req\<lparr>headers := [(''Authorization'', ''Bearer '' @ token), (''Accept'', ''application/json'')]\<rparr>"

text \<open>\<^verbatim>\<open>fetch(request, { signal })\<close>: rejects at once under an aborted signal; otherwise the
  request goes out as call number \<open>length (calls w)\<close> and the transport decides.\<close>

definition fetch :: "transport \<Rightarrow> Request \<Rightarrow> world \<Rightarrow> Response outcome" where
  "fetch tr req w =
     (if aborted w then (Inl AbortError, w)
      else case tr (length (calls w)) of
             Responds resp \<Rightarrow> (Inr resp, w\<lparr>calls := calls w @ [req]\<rparr>)
           | Disposes \<Rightarrow> (Inl AbortError, w\<lparr>calls := calls w @ [req], aborted := True\<rparr>))"

definition tokenRequest :: "string \<Rightarrow> Request" where
  "tokenRequest refreshToken =
     \<lparr>url = ''https://user-api.setapp.com/v1/token'', method_name = ''POST'',
      body = Some [(''refresh_token'', refreshToken)], headers = []\<rparr>"

text \<open>
  \<open>SetappClient.request\<close>.  It and \<open>SetappClient.refreshToken\<close> call each other; the body of
  \<open>refreshToken\<close> stands in the 401 branch here and is given its own name below.  A run
  that never returns has the value \<open>None\<close>.
\<close>

partial_function (option) request ::
  "TokenStore \<Rightarrow> transport \<Rightarrow> Request \<Rightarrow> world \<Rightarrow> Response outcome option" where
  "request ts tr req w =
     (let req1 = authorized (getToken ts w) req in
      case fetch tr req1 w of
        (Inl e, w1) \<Rightarrow> Some (Inl e, w1)
      | (Inr resp, w1) \<Rightarrow>
          if ok resp then Some (Inr resp, w1)
          else if status resp = 401 then
            do {
              let w2 = logger ''token expired, refreshing'' w1;
              (res, w3) \<leftarrow> request ts tr (tokenRequest (getRefreshToken ts w2)) w2;
              case res of
                Inl e \<Rightarrow> Some (Inl e, w3)
              | Inr resp2 \<Rightarrow>
                  (case data_fields (json resp2) of
                     None \<Rightarrow> Some (Inl ParseError, w3)
                   | Some (token, refresh_token) \<Rightarrow>
                       request ts tr req1
                         (logger ''token refreshed, start resending request''
                            (updateTokens_any token refresh_token w3)))
            }
          else Some (Inl (RequestError (''request error: '' @ url req1)), w1))"

declare request.simps [code]

definition refreshToken :: "TokenStore \<Rightarrow> transport \<Rightarrow> world \<Rightarrow> unit outcome option" where
  "refreshToken ts tr w =
     do {
       (res, w1) \<leftarrow> request ts tr (tokenRequest (getRefreshToken ts w)) w;
       case res of
         Inl e \<Rightarrow> Some (Inl e, w1)
       | Inr resp \<Rightarrow>
           (case data_fields (json resp) of
              None \<Rightarrow> Some (Inl ParseError, w1)
            | Some (token, refresh_token) \<Rightarrow>
                Some (Inr (), updateTokens_any token refresh_token w1))
     }"

text \<open>
  The pairs a run hands to \<open>updateTokens\<close>, read off the transport and the calls made.
  \<open>refreshToken\<close> is the only caller of \<open>updateTokens\<close>; it hands over the two fields of
  the answer to its call to the token endpoint whenever that answer is a 2xx one with data.
  \<open>refresh_answer tr cs k\<close> is that pair for call number \<open>k\<close> of the calls \<open>cs\<close>, as a list of
  one or no element; \<open>passed_to_updateTokens tr w w'\<close> lists the pairs, in order, for the calls
  made between the worlds \<open>w\<close> and \<open>w'\<close>.
\<close>

definition refresh_answer ::
  "transport \<Rightarrow> Request list \<Rightarrow> nat \<Rightarrow> (string option \<times> string option) list" where
  "refresh_answer tr cs k =
     (if url (cs ! k) = ''https://user-api.setapp.com/v1/token''
      then (case tr k of
              Responds resp \<Rightarrow>
                (if ok resp then (case data_fields (json resp) of None \<Rightarrow> [] | Some p \<Rightarrow> [p])
                 else [])
            | Disposes \<Rightarrow> [])
      else [])"

definition pairs_between ::
  "transport \<Rightarrow> Request list \<Rightarrow> nat \<Rightarrow> nat \<Rightarrow> (string option \<times> string option) list" where
  "pairs_between tr cs n m = concat (map (refresh_answer tr cs) [n..<m])"

definition passed_to_updateTokens ::
  "transport \<Rightarrow> world \<Rightarrow> world \<Rightarrow> (string option \<times> string option) list" where
  "passed_to_updateTokens tr w w' =
     pairs_between tr (calls w') (length (calls w)) (length (calls w'))"

section \<open>Device client\<close>

text \<open>\<^verbatim>\<open>`${id}`\<close> for an integer \<open>id\<close>: its decimal digits, with a minus sign below zero.\<close>

fun string_of_nat :: "nat \<Rightarrow> string" where
  "string_of_nat n =
     (if n < 10 then [''0123456789'' ! n]
      else string_of_nat (n div 10) @ [''0123456789'' ! (n mod 10)])"

declare string_of_nat.simps [simp del]

definition string_of_int :: "int \<Rightarrow> string" where
  "string_of_int i = (if i < 0 then CHR ''-'' # string_of_nat (nat (- i)) else string_of_nat (nat i))"

text \<open>\<^verbatim>\<open>Array.prototype.join\<close> on strings.\<close>

fun join :: "string \<Rightarrow> string list \<Rightarrow> string" where
  "join sep [] = []"
| "join sep [x] = x"
| "join sep (x # y # ys) = x @ sep @ join sep (y # ys)"

definition devicesRequest :: Request where
  "devicesRequest =
     \<lparr>url = ''https://user-api.setapp.com/v1/devices'', method_name = ''GET'', body = None,
      headers = []\<rparr>"

definition deviceRequest :: "int \<Rightarrow> Request" where
  "deviceRequest i =
     \<lparr>url = ''https://user-api.setapp.com/v1/devices/'' @ string_of_int i, method_name = ''DELETE'',
      body = None, headers = []\<rparr>"

definition fetchActiveDevices ::
  "TokenStore \<Rightarrow> transport \<Rightarrow> world \<Rightarrow> Device list outcome option" where
  "fetchActiveDevices ts tr w =
     do {
       (res, w1) \<leftarrow> request ts tr devicesRequest (logger ''start fetching devices.'' w);
       case res of
         Inl e \<Rightarrow> Some (Inl e, w1)
       | Inr resp \<Rightarrow>
           (case json resp of
              DeviceData devices \<Rightarrow>
                Some (Inr devices,
                      if length devices > 0
                      then logger (''fetched devices: '' @ join '', '' (map name devices)) w1
                      else w1)
            | _ \<Rightarrow> Some (Inl ParseError, w1))
     }"

definition disconnectDeviceById ::
  "TokenStore \<Rightarrow> transport \<Rightarrow> int \<Rightarrow> world \<Rightarrow> unit outcome option" where
  "disconnectDeviceById ts tr i w =
     do {
       (res, w1) \<leftarrow>
         request ts tr (deviceRequest i)
           (logger (''disconnecting device of id: '' @ string_of_int i) w);
       case res of
         Inl e \<Rightarrow> Some (Inl e, w1)
       | Inr resp \<Rightarrow> Some (Inr (), logger ''device disconnected'' w1)
     }"

text \<open>\<^verbatim>\<open>this.abortController.abort()\<close>\<close>

definition dispose :: "world \<Rightarrow> world" where
  "dispose w = w\<lparr>aborted := True\<rparr>"

section \<open>The pipeline of the first version\<close>

text \<open>
  \<open>request\<close> as nested in \<open>main\<close>.  It calls \<^verbatim>\<open>fetch\<close> without a signal, so only the
  server's answers matter.  In the 401 branch \<^verbatim>\<open>const req\<close> declares the token request
  under the name of the parameter; both \<^verbatim>\<open>request(req)\<close> calls of that block, the refresh
  and the resend, are in its scope.  The \<^verbatim>\<open>throw\<close> of the last branch is outside the
  block and reads the parameter.
\<close>

definition fetch_main :: "(nat \<Rightarrow> Response) \<Rightarrow> Request \<Rightarrow> world \<Rightarrow> Response \<times> world" where
  "fetch_main tr req w = (tr (length (calls w)), w\<lparr>calls := calls w @ [req]\<rparr>)"

partial_function (option) main_request ::
  "TokenStore \<Rightarrow> (nat \<Rightarrow> Response) \<Rightarrow> Request \<Rightarrow> world \<Rightarrow> Response outcome option" where
  "main_request ts tr req w =
     (case fetch_main tr (authorized (getToken ts w) req) w of
        (resp, w1) \<Rightarrow>
          if ok resp then Some (Inr resp, w1)
          else if status resp = 401 then
            do {
              let w2 = logger ''token expired, refreshing'' w1;
              let req_inner = tokenRequest (getRefreshToken ts w2);
              (res, w3) \<leftarrow> main_request ts tr req_inner w2;
              case res of
                Inl e \<Rightarrow> Some (Inl e, w3)
              | Inr resp2 \<Rightarrow>
                  (case data_fields (json resp2) of
                     None \<Rightarrow> Some (Inl ParseError, w3)
                   | Some (token, refresh_token) \<Rightarrow>
                       main_request ts tr req_inner
                         (logger ''token refreshed, start resending request''
                            (updateTokens_any token refresh_token w3)))
            }
          else Some (Inl (RequestError (''request error: '' @ url req)), w1))"

declare main_request.simps [code]

section \<open>Concrete scenarios\<close>

text \<open>The defaults, the empty store and the responses of the repository's tests and of the
  scenario of the specification.\<close>

definition store0 :: TokenStore where
  "store0 = \<lparr>defaultToken = ''t0'', defaultRefreshToken = ''r0''\<rparr>"

definition world0 :: world where
  "world0 = \<lparr>storage = Map.empty, calls = [], logs = [], aborted = False\<rparr>"

definition unauthorized :: Response where
  "unauthorized = \<lparr>status = 401, json = NoData\<rparr>"

definition refreshed :: Response where
  "refreshed = \<lparr>status = 200, json = TokenData (Some ''11'') (Some ''22'')\<rparr>"

definition blank_pair :: Response where
  "blank_pair = \<lparr>status = 200, json = TokenData (Some []) (Some [])\<rparr>"

definition listing :: Response where
  "listing = \<lparr>status = 200, json = DeviceData [\<lparr>id_num = 123, name = ''macOS''\<rparr>]\<rparr>"

definition server_error :: Response where
  "server_error = \<lparr>status = 500, json = NoData\<rparr>"

text \<open>401, then the refreshed pair, then the device list.\<close>

definition answers_expired_once :: "nat \<Rightarrow> Response" where
  "answers_expired_once k = (if k = 0 then unauthorized else if k = 1 then refreshed else listing)"

definition expired_once :: transport where
  "expired_once k = Responds (answers_expired_once k)"

definition always_unauthorized :: transport where
  "always_unauthorized k = Responds unauthorized"

text \<open>401 to every even call, a fresh token pair to every odd one.\<close>

definition alternating :: transport where
  "alternating k = (if even k then Responds unauthorized else Responds refreshed)"

definition always_error :: transport where
  "always_error k = Responds server_error"

definition blank_refresh :: transport where
  "blank_refresh k =
     (if k = 0 then Responds unauthorized else if k = 1 then Responds blank_pair
      else Responds listing)"

text \<open>The host disposes the client while the refresh call is pending.\<close>

definition disposed_in_refresh :: transport where
  "disposed_in_refresh k = (if k = 0 then Responds unauthorized else Disposes)"

section \<open>Basic facts\<close>

lemmas scenario_defs =
  store0_def world0_def unauthorized_def refreshed_def blank_pair_def listing_def
  server_error_def answers_expired_once_def expired_once_def always_unauthorized_def
  alternating_def always_error_def blank_refresh_def disposed_in_refresh_def

lemma keys_distinct: "KEY_TOKEN \<noteq> KEY_REFRESH_TOKEN"
  by (simp add: KEY_TOKEN_def KEY_REFRESH_TOKEN_def)

lemma url_authorized [simp]: "url (authorized t req) = url req"
  by (simp add: authorized_def)

lemma authorized_twice [simp]: "authorized t (authorized t' req) = authorized t req"
  by (simp add: authorized_def)

lemma logger_fields [simp]:
  "storage (logger s w) = storage w"
  "calls (logger s w) = calls w"
  "aborted (logger s w) = aborted w"
  "logs (logger s w) = logs w @ [s]"
  by (simp_all add: logger_def)

lemma updateTokens_fields [simp]:
  "storage (updateTokens a r w) = (storage w)(KEY_TOKEN \<mapsto> a, KEY_REFRESH_TOKEN \<mapsto> r)"
  "calls (updateTokens a r w) = calls w"
  "aborted (updateTokens a r w) = aborted w"
  "logs (updateTokens a r w) = logs w"
  by (simp_all add: updateTokens_def setItem_def)

lemma updateTokens_any_fields [simp]:
  "storage (updateTokens_any a r w) = (storage w)(KEY_TOKEN := a, KEY_REFRESH_TOKEN := r)"
  "calls (updateTokens_any a r w) = calls w"
  "aborted (updateTokens_any a r w) = aborted w"
  "logs (updateTokens_any a r w) = logs w"
  by (simp_all add: updateTokens_any_def setItem_any_def)

lemma updateTokens_any_strings [simp]:
  "updateTokens_any (Some a) (Some r) w = updateTokens a r w"
  by (simp add: updateTokens_any_def setItem_any_def updateTokens_def setItem_def)

lemma getToken_storage: "storage w = storage w' \<Longrightarrow> getToken ts w = getToken ts w'"
  by (simp add: getToken_def getItem_def)

lemma getRefreshToken_storage:
  "storage w = storage w' \<Longrightarrow> getRefreshToken ts w = getRefreshToken ts w'"
  by (simp add: getRefreshToken_def getItem_def)

lemma getToken_logger [simp]: "getToken ts (logger s w) = getToken ts w"
  by (rule getToken_storage) simp

lemma getRefreshToken_logger [simp]: "getRefreshToken ts (logger s w) = getRefreshToken ts w"
  by (rule getRefreshToken_storage) simp

lemma getToken_calls_update [simp]:
  "getToken ts (w\<lparr>calls := cs\<rparr>) = getToken ts w"
  "getToken ts (w\<lparr>aborted := b\<rparr>) = getToken ts w"
  "getToken ts (w\<lparr>logs := ls\<rparr>) = getToken ts w"
  by (simp_all add: getToken_def getItem_def)

lemma getRefreshToken_calls_update [simp]:
  "getRefreshToken ts (w\<lparr>calls := cs\<rparr>) = getRefreshToken ts w"
  "getRefreshToken ts (w\<lparr>aborted := b\<rparr>) = getRefreshToken ts w"
  "getRefreshToken ts (w\<lparr>logs := ls\<rparr>) = getRefreshToken ts w"
  by (simp_all add: getRefreshToken_def getItem_def)

lemma getToken_updateTokens [simp]: "getToken ts (updateTokens a r w) = a"
  using keys_distinct by (simp add: getToken_def getItem_def)

lemma getRefreshToken_updateTokens [simp]: "getRefreshToken ts (updateTokens a r w) = r"
  by (simp add: getRefreshToken_def getItem_def)

lemma fetch_aborted: "aborted w \<Longrightarrow> fetch tr req w = (Inl AbortError, w)"
  by (simp add: fetch_def)

lemma fetch_responds:
  "\<not> aborted w \<Longrightarrow> tr (length (calls w)) = Responds resp \<Longrightarrow>
   fetch tr req w = (Inr resp, w\<lparr>calls := calls w @ [req]\<rparr>)"
  by (simp add: fetch_def)

lemma fetch_disposes:
  "\<not> aborted w \<Longrightarrow> tr (length (calls w)) = Disposes \<Longrightarrow>
   fetch tr req w = (Inl AbortError, w\<lparr>calls := calls w @ [req], aborted := True\<rparr>)"
  by (simp add: fetch_def)

section \<open>The pipeline as the class writes it\<close>

text \<open>The two functions as the class has them: \<open>request\<close> with the call to
  \<open>refreshToken\<close> in its 401 branch.\<close>

lemma request_unfold:
  "request ts tr req w =
     (let req1 = authorized (getToken ts w) req in
      case fetch tr req1 w of
        (Inl e, w1) \<Rightarrow> Some (Inl e, w1)
      | (Inr resp, w1) \<Rightarrow>
          if ok resp then Some (Inr resp, w1)
          else if status resp = 401 then
            do {
              (res, w3) \<leftarrow> refreshToken ts tr (logger ''token expired, refreshing'' w1);
              case res of
                Inl e \<Rightarrow> Some (Inl e, w3)
              | Inr u \<Rightarrow>
                  request ts tr req1 (logger ''token refreshed, start resending request'' w3)
            }
          else Some (Inl (RequestError (''request error: '' @ url req1)), w1))"
proof -
  have inner: "(refreshToken ts tr w2 \<bind>
         (\<lambda>(res, w3). case res of Inl e \<Rightarrow> Some (Inl e, w3)
             | Inr u \<Rightarrow> request ts tr r (logger s w3)))
      = (request ts tr (tokenRequest (getRefreshToken ts w2)) w2 \<bind>
         (\<lambda>(res, w3). case res of Inl e \<Rightarrow> Some (Inl e, w3)
             | Inr resp2 \<Rightarrow> (case data_fields (json resp2) of
                     None \<Rightarrow> Some (Inl ParseError, w3)
                   | Some (token, refresh_token) \<Rightarrow>
                       request ts tr r (logger s (updateTokens_any token refresh_token w3)))))"
    for w2 r s
    unfolding refreshToken_def
    by (cases "request ts tr (tokenRequest (getRefreshToken ts w2)) w2")
       (auto split: sum.splits option.splits)
  show ?thesis
    by (subst request.simps) (simp only: inner Let_def)
qed

section \<open>Rule induction over returning runs\<close>

lemma request_induct [consumes 1, case_names rejected ok other refresh_failed refresh_malformed resent]:
  assumes run: "request ts tr req w = Some out"
    and rejected: "\<And>req w e w1.
        fetch tr (authorized (getToken ts w) req) w = (Inl e, w1) \<Longrightarrow> P req w (Inl e, w1)"
    and ok: "\<And>req w resp w1.
        fetch tr (authorized (getToken ts w) req) w = (Inr resp, w1) \<Longrightarrow> ok resp \<Longrightarrow>
        P req w (Inr resp, w1)"
    and other: "\<And>req w resp w1.
        fetch tr (authorized (getToken ts w) req) w = (Inr resp, w1) \<Longrightarrow> \<not> ok resp \<Longrightarrow>
        status resp \<noteq> 401 \<Longrightarrow>
        P req w (Inl (RequestError (''request error: '' @ url req)), w1)"
    and refresh_failed: "\<And>req w resp w1 w2 e w3.
        fetch tr (authorized (getToken ts w) req) w = (Inr resp, w1) \<Longrightarrow> \<not> ok resp \<Longrightarrow>
        status resp = 401 \<Longrightarrow> w2 = logger ''token expired, refreshing'' w1 \<Longrightarrow>
        P (tokenRequest (getRefreshToken ts w2)) w2 (Inl e, w3) \<Longrightarrow>
        P req w (Inl e, w3)"
    and refresh_malformed: "\<And>req w resp w1 w2 resp2 w3.
        fetch tr (authorized (getToken ts w) req) w = (Inr resp, w1) \<Longrightarrow> \<not> ok resp \<Longrightarrow>
        status resp = 401 \<Longrightarrow> w2 = logger ''token expired, refreshing'' w1 \<Longrightarrow>
        P (tokenRequest (getRefreshToken ts w2)) w2 (Inr resp2, w3) \<Longrightarrow>
        data_fields (json resp2) = None \<Longrightarrow>
        P req w (Inl ParseError, w3)"
    and resent: "\<And>req w resp w1 w2 resp2 w3 t rt out.
        fetch tr (authorized (getToken ts w) req) w = (Inr resp, w1) \<Longrightarrow> \<not> ok resp \<Longrightarrow>
        status resp = 401 \<Longrightarrow> w2 = logger ''token expired, refreshing'' w1 \<Longrightarrow>
        P (tokenRequest (getRefreshToken ts w2)) w2 (Inr resp2, w3) \<Longrightarrow>
        data_fields (json resp2) = Some (t, rt) \<Longrightarrow>
        P (authorized (getToken ts w) req)
          (logger ''token refreshed, start resending request'' (updateTokens_any t rt w3)) out \<Longrightarrow>
        P req w out"
  shows "P req w out"
proof -
  define Q where "Q = (\<lambda>ts' tr' req w out. ts' = ts \<and> tr' = tr \<longrightarrow> P req w out)"
  have "Q ts tr req w out"
  proof (rule request.raw_induct[where P = Q, OF _ run])
    fix rq ts' tr' req w out
    assume IH: "\<And>ts tr req w out. rq ts tr req w = Some out \<Longrightarrow> Q ts tr req w out"
      and step: "(let req1 = authorized (getToken ts' w) req in
      case fetch tr' req1 w of
        (Inl e, w1) \<Rightarrow> Some (Inl e, w1)
      | (Inr resp, w1) \<Rightarrow>
          if ok resp then Some (Inr resp, w1)
          else if status resp = 401 then
            do {
              let w2 = logger ''token expired, refreshing'' w1;
              (res, w3) \<leftarrow> rq ts' tr' (tokenRequest (getRefreshToken ts' w2)) w2;
              case res of
                Inl e \<Rightarrow> Some (Inl e, w3)
              | Inr resp2 \<Rightarrow>
                  (case data_fields (json resp2) of
                     None \<Rightarrow> Some (Inl ParseError, w3)
                   | Some (token, refresh_token) \<Rightarrow>
                       rq ts' tr' req1
                         (logger ''token refreshed, start resending request''
                            (updateTokens_any token refresh_token w3)))
            }
          else Some (Inl (RequestError (''request error: '' @ url req1)), w1)) = Some out"
    show "Q ts' tr' req w out" unfolding Q_def
    proof (intro impI, elim conjE)
      assume eq: "ts' = ts" "tr' = tr"
      note 1 = IH[unfolded Q_def, rule_format, OF _ conjI[OF refl refl]] step
      obtain r w1 where f: "fetch tr (authorized (getToken ts w) req) w = (r, w1)"
        by (cases "fetch tr (authorized (getToken ts w) req) w")
      show "P req w out"
      proof (cases r)
        case (Inl e)
        with 1(2) f eq show ?thesis by (auto simp: Let_def intro: rejected)
      next
        case (Inr resp)
        show ?thesis
        proof (cases "ok resp")
          case True
          with 1(2) f eq Inr show ?thesis by (auto simp: Let_def intro: ok)
        next
          case nok: False
          show ?thesis
          proof (cases "status resp = 401")
            case False
            with 1(2) f eq Inr nok show ?thesis
              using other[OF f[unfolded Inr] nok False] by (auto simp: Let_def)
          next
            case unauth: True
            define w2 where "w2 = logger ''token expired, refreshing'' w1"
            from 1(2) f eq Inr nok unauth obtain res w3 where
              inner: "rq ts tr (tokenRequest (getRefreshToken ts w2)) w2 = Some (res, w3)"
              and rest: "(case res of Inl e \<Rightarrow> Some (Inl e, w3)
                 | Inr resp2 \<Rightarrow> (case data_fields (json resp2) of
                     None \<Rightarrow> Some (Inl ParseError, w3)
                   | Some (token, refresh_token) \<Rightarrow>
                       rq ts tr (authorized (getToken ts w) req)
                         (logger ''token refreshed, start resending request''
                            (updateTokens_any token refresh_token w3)))) = Some out"
              by (auto simp: Let_def w2_def split: Option.bind_splits)
            from 1(1)[OF inner] have Pin: "P (tokenRequest (getRefreshToken ts w2)) w2 (res, w3)"
              by simp
            show ?thesis
            proof (cases res)
              case (Inl e)
              with rest Pin show ?thesis
                using refresh_failed[OF f[unfolded Inr] nok unauth w2_def] by auto
            next
              case r2: (Inr resp2)
              show ?thesis
              proof (cases "data_fields (json resp2)")
                case None
                with rest r2 Pin show ?thesis
                  using refresh_malformed[OF f[unfolded Inr] nok unauth w2_def, of resp2 w3]
                  by auto
              next
                case (Some pair)
                then obtain t rt where j: "data_fields (json resp2) = Some (t, rt)"
                  by (cases pair) auto
                with rest r2 have "rq ts tr (authorized (getToken ts w) req)
                         (logger ''token refreshed, start resending request''
                            (updateTokens_any t rt w3)) = Some out" by simp
                from 1(1)[OF this] Pin r2 j show ?thesis
                  using resent[OF f[unfolded Inr] nok unauth w2_def, of resp2 w3 t rt out] by simp
              qed
            qed
          qed
        qed
      qed
    qed
  qed
  then show ?thesis by (simp add: Q_def)
qed

lemma request_calls_grow:
  "request ts tr req w = Some (res, w') \<Longrightarrow> \<exists>cs. calls w' = calls w @ cs"
proof (induction req w "(res, w')" arbitrary: res w' rule: request_induct)
qed (auto simp: fetch_def split: if_splits event.splits)

section \<open>One step of the pipeline\<close>

lemma fetch_cases:
  obtains (aborted) "aborted w" "fetch tr req w = (Inl AbortError, w)"
  | (disposes) "\<not> aborted w" "tr (length (calls w)) = Disposes"
      "fetch tr req w = (Inl AbortError, w\<lparr>calls := calls w @ [req], aborted := True\<rparr>)"
  | (responds) resp where "\<not> aborted w" "tr (length (calls w)) = Responds resp"
      "fetch tr req w = (Inr resp, w\<lparr>calls := calls w @ [req]\<rparr>)"
  by (cases "aborted w"; cases "tr (length (calls w))") (auto simp: fetch_def)

lemma fetch_Inr:
  "fetch tr req w = (Inr resp, w1) \<Longrightarrow>
   \<not> aborted w \<and> tr (length (calls w)) = Responds resp \<and> w1 = w\<lparr>calls := calls w @ [req]\<rparr>"
  by (rule fetch_cases[where w = w and tr = tr and req = req]) auto

lemma fetch_Inl:
  "fetch tr req w = (Inl e, w1) \<Longrightarrow>
   e = AbortError \<and> aborted w1 \<and> (aborted w \<longrightarrow> w1 = w) \<and>
   (\<not> aborted w \<longrightarrow> tr (length (calls w)) = Disposes \<and> calls w1 = calls w @ [req])"
  by (rule fetch_cases[where w = w and tr = tr and req = req]) auto

lemma ok_not_401: "ok resp \<Longrightarrow> status resp \<noteq> 401"
  by (simp add: ok_def)

lemma request_aborted: "aborted w \<Longrightarrow> request ts tr req w = Some (Inl AbortError, w)"
  by (subst request.simps) (simp add: fetch_aborted)

lemma request_disposes:
  assumes "\<not> aborted w" "tr (length (calls w)) = Disposes"
  shows "request ts tr req w =
           Some (Inl AbortError,
                 w\<lparr>calls := calls w @ [authorized (getToken ts w) req], aborted := True\<rparr>)"
  using assms by (subst request.simps) (simp add: fetch_disposes)

lemma request_ok:
  assumes "\<not> aborted w" "tr (length (calls w)) = Responds resp" "ok resp"
  shows "request ts tr req w =
           Some (Inr resp, w\<lparr>calls := calls w @ [authorized (getToken ts w) req]\<rparr>)"
  using assms by (subst request.simps) (simp add: fetch_responds)

lemma request_other:
  assumes "\<not> aborted w" "tr (length (calls w)) = Responds resp"
    and "\<not> ok resp" "status resp \<noteq> 401"
  shows "request ts tr req w =
           Some (Inl (RequestError (''request error: '' @ url req)),
                 w\<lparr>calls := calls w @ [authorized (getToken ts w) req]\<rparr>)"
  using assms by (subst request.simps) (simp add: fetch_responds)

lemma request_401:
  assumes "\<not> aborted w" "tr (length (calls w)) = Responds resp" "status resp = 401"
  shows "request ts tr req w =
           request ts tr (tokenRequest (getRefreshToken ts w))
             (logger ''token expired, refreshing''
                (w\<lparr>calls := calls w @ [authorized (getToken ts w) req]\<rparr>)) \<bind>
           (\<lambda>(res, w3).
               case res of
                 Inl e \<Rightarrow> Some (Inl e, w3)
               | Inr resp2 \<Rightarrow>
                   (case data_fields (json resp2) of
                      None \<Rightarrow> Some (Inl ParseError, w3)
                    | Some (token, refresh_token) \<Rightarrow>
                        request ts tr (authorized (getToken ts w) req)
                          (logger ''token refreshed, start resending request''
                             (updateTokens_any token refresh_token w3))))"
  using assms ok_not_401[of resp]
  by (subst request.simps) (auto simp add: fetch_responds Let_def)

section \<open>The network calls of a returning run\<close>

lemma request_first_call:
  assumes "request ts tr req w = Some (res, w')" and "\<not> aborted w"
  shows "\<exists>cs. calls w' = calls w @ authorized (getToken ts w) req # cs"
proof -
  have "(\<exists>cs. calls w' = calls w @ cs) \<and>
        (\<not> aborted w \<longrightarrow> (\<exists>cs. calls w' = calls w @ authorized (getToken ts w) req # cs))"
    using assms(1)
  proof (induction req w "(res, w')" arbitrary: res w' rule: request_induct)
    case (rejected req w e w1)
    then show ?case by (auto dest!: fetch_Inl simp: fetch_aborted)
  next
    case (ok req w resp w1)
    then show ?case by (auto dest!: fetch_Inr)
  next
    case (other req w resp w1)
    then show ?case by (auto dest!: fetch_Inr)
  next
    case (refresh_failed req w resp w1 w2 e w3)
    then show ?case by (auto dest!: fetch_Inr)
  next
    case (refresh_malformed req w resp w1 w2 resp2 w3)
    then show ?case by (auto dest!: fetch_Inr)
  next
    case (resent req w resp w1 w2 resp2 w3 t rt)
    then show ?case by (auto dest!: fetch_Inr)
  qed
  with assms(2) show ?thesis by blast
qed

section \<open>Runs that never return, runs that must return\<close>

lemma request_diverges:
  assumes "\<not> aborted w"
    and "\<forall>k\<ge>length (calls w). \<exists>resp. tr k = Responds resp \<and> status resp = 401"
  shows "request ts tr req w = None"
proof (rule ccontr)
  assume "request ts tr req w \<noteq> None"
  then obtain out where "request ts tr req w = Some out" by blast
  then have "\<not> (\<not> aborted w \<and>
      (\<forall>k\<ge>length (calls w). \<exists>resp. tr k = Responds resp \<and> status resp = 401))"
  proof (induction req w out rule: request_induct)
    case (rejected req w e w1)
    then show ?case by (fastforce dest!: fetch_Inl)
  next
    case (ok req w resp w1)
    then show ?case by (fastforce dest!: fetch_Inr simp: ok_def)
  next
    case (other req w resp w1)
    then show ?case by (fastforce dest!: fetch_Inr)
  next
    case (refresh_failed req w resp w1 w2 e w3)
    then show ?case by (fastforce dest!: fetch_Inr)
  next
    case (refresh_malformed req w resp w1 w2 resp2 w3)
    then show ?case by (fastforce dest!: fetch_Inr)
  next
    case (resent req w resp w1 w2 resp2 w3 t rt out)
    then show ?case by (fastforce dest!: fetch_Inr)
  qed
  with assms show False by blast
qed

lemma request_returns:
  assumes "\<forall>k\<ge>N. \<forall>resp. tr k = Responds resp \<longrightarrow> status resp \<noteq> 401"
  shows "\<exists>out. request ts tr req w = Some out"
proof (induction "N - length (calls w)" arbitrary: w req rule: less_induct)
  case less
  let ?a = "authorized (getToken ts w) req"
  show ?case
  proof (rule fetch_cases[where w = w and tr = tr and req = ?a])
    assume "aborted w"
    then show ?thesis by (simp add: request_aborted)
  next
    assume "\<not> aborted w" "tr (length (calls w)) = Disposes"
    then show ?thesis by (simp add: request_disposes)
  next
    fix resp
    assume live: "\<not> aborted w" and r: "tr (length (calls w)) = Responds resp"
    show ?thesis
    proof (cases "status resp = 401")
      case False
      with live r show ?thesis
        by (cases "ok resp") (simp_all add: request_ok request_other)
    next
      case True
      from True r assms have small: "length (calls w) < N"
        by (meson not_le_imp_less)
      let ?w2 = "logger ''token expired, refreshing'' (w\<lparr>calls := calls w @ [?a]\<rparr>)"
      note step = request_401[where w = w and tr = tr and ts = ts and req = req, OF live r True]
      have "N - length (calls ?w2) < N - length (calls w)" using small by simp
      from less[OF this] obtain res3 w3 where
        inner: "request ts tr (tokenRequest (getRefreshToken ts w)) ?w2 = Some (res3, w3)"
        by fastforce
      from request_calls_grow[OF inner] have "length (calls w3) > length (calls w)"
        by auto
      then have m: "N - length (calls (logger s (updateTokens_any t rt w3))) < N - length (calls w)"
        for s t rt using small by simp
      show ?thesis
      proof (cases res3)
        case (Inl e)
        with step inner show ?thesis by simp
      next
        case (Inr resp2)
        show ?thesis
        proof (cases "data_fields (json resp2)")
          case None
          with step inner Inr show ?thesis by simp
        next
          case (Some pair)
          obtain t rt where pair: "pair = (t, rt)" by (cases pair)
          from less[OF m] obtain out where "request ts tr ?a
             (logger ''token refreshed, start resending request'' (updateTokens_any t rt w3)) =
               Some out"
            by blast
          with step inner Inr Some pair show ?thesis by simp
        qed
      qed
    qed
  qed
qed

lemma alternating_returns_at_odd_calls:
  assumes "request ts alternating req w = Some (res, w')" and "\<not> aborted w"
  shows "odd (length (calls w)) \<and> length (calls w') = Suc (length (calls w)) \<and> \<not> aborted w'
         \<and> res = Inr refreshed"
proof -
  have "\<not> aborted w \<longrightarrow>
        odd (length (calls w)) \<and> length (calls w') = Suc (length (calls w)) \<and> \<not> aborted w'
        \<and> res = Inr refreshed"
    using assms(1)
  proof (induction req w "(res, w')" arbitrary: res w' rule: request_induct)
    case (rejected req w e w1)
    then show ?case by (auto dest!: fetch_Inl simp: alternating_def split: if_splits)
  next
    case (ok req w resp w1)
    then show ?case
      by (auto dest!: fetch_Inr simp: alternating_def ok_def unauthorized_def split: if_splits)
  next
    case (other req w resp w1)
    then show ?case
      by (auto dest!: fetch_Inr simp: alternating_def ok_def unauthorized_def refreshed_def
          split: if_splits)
  next
    case (refresh_failed req w resp w1 w2 e w3)
    then show ?case
      by (auto dest!: fetch_Inr simp: alternating_def split: if_splits)
  next
    case (refresh_malformed req w resp w1 w2 resp2 w3)
    then show ?case
      by (auto dest!: fetch_Inr simp: alternating_def refreshed_def split: if_splits)
  next
    case (resent req w resp w1 w2 resp2 w3 t rt)
    then show ?case
      by (auto dest!: fetch_Inr simp: alternating_def split: if_splits)
  qed
  with assms(2) show ?thesis by blast
qed

section \<open>Disposal\<close>

lemma request_disposed:
  assumes "tr k = Disposes"
  shows "length (calls w) \<le> k \<Longrightarrow>
         \<exists>res w'. request ts tr req w = Some (res, w') \<and> length (calls w') \<le> Suc k \<and>
            (k < length (calls w') \<longrightarrow> res = Inl AbortError \<and> aborted w')"
proof (induction "k - length (calls w)" arbitrary: w req rule: less_induct)
  case less
  let ?a = "authorized (getToken ts w) req"
  show ?case
  proof (rule fetch_cases[where w = w and tr = tr and req = ?a])
    assume "aborted w"
    with less.prems show ?thesis by (simp add: request_aborted)
  next
    assume "\<not> aborted w" "tr (length (calls w)) = Disposes"
    with less.prems show ?thesis by (simp add: request_disposes)
  next
    fix resp
    assume live: "\<not> aborted w" and r: "tr (length (calls w)) = Responds resp"
    with assms less.prems have small: "length (calls w) < k"
      by (cases "length (calls w) = k") auto
    show ?thesis
    proof (cases "status resp = 401")
      case False
      with live r small show ?thesis
        by (cases "ok resp") (simp_all add: request_ok request_other)
    next
      case True
      let ?w2 = "logger ''token expired, refreshing'' (w\<lparr>calls := calls w @ [?a]\<rparr>)"
      note step = request_401[where w = w and tr = tr and ts = ts and req = req, OF live r True]
      have "k - length (calls ?w2) < k - length (calls w)" "length (calls ?w2) \<le> k"
        using small by simp_all
      from less.hyps[OF this] obtain res3 w3 where
        inner: "request ts tr (tokenRequest (getRefreshToken ts w)) ?w2 = Some (res3, w3)"
        and b3: "length (calls w3) \<le> Suc k"
        and a3: "k < length (calls w3) \<longrightarrow> res3 = Inl AbortError \<and> aborted w3"
        by fastforce
      from request_calls_grow[OF inner] have g3: "length (calls w3) > length (calls w)"
        by auto
      show ?thesis
      proof (cases res3)
        case (Inl e)
        with step inner a3 b3 show ?thesis by simp
      next
        case (Inr resp2)
        with a3 b3 have le3: "length (calls w3) \<le> k" by (cases "k < length (calls w3)") auto
        show ?thesis
        proof (cases "data_fields (json resp2)")
          case None
          with step inner Inr le3 show ?thesis by simp
        next
          case (Some pair)
          obtain t rt where pair: "pair = (t, rt)" by (cases pair)
          let ?w4 = "logger ''token refreshed, start resending request''
                       (updateTokens_any t rt w3)"
          have "k - length (calls ?w4) < k - length (calls w)" "length (calls ?w4) \<le> k"
            using g3 le3 small by simp_all
          from less.hyps[OF this, of ?a] step inner Inr Some pair show ?thesis by simp
        qed
      qed
    qed
  qed
qed

section \<open>Token store: reads after writes\<close>

lemma updateTokens_all_snoc:
  "updateTokens_all (ps @ [(a, r)]) w = updateTokens a r (updateTokens_all ps w)"
  by (induction ps arbitrary: w) auto

text \<open>
  Claim C7.  For all strings \<open>a\<close> and \<open>r\<close>, \<open>updateTokens a r\<close> followed at once by the two
  reads yields exactly the pair \<open>(a, r)\<close>, whatever the store held before: no read sees an
  old value.
\<close>

theorem updateTokens_then_read_both:
  "getToken ts (updateTokens a r w) = a \<and> getRefreshToken ts (updateTokens a r w) = r"
  by simp

text \<open>
  Claim C8.  For every pair of configured defaults, the two reads return the defaults when
  nothing has been persisted, and after any number of \<open>updateTokens\<close> calls (the calls
  \<open>ps\<close> and then one more) they return the pair passed to the most recent call.
\<close>

theorem tokens_default_then_last_write:
  "getToken ts (w\<lparr>storage := Map.empty\<rparr>) = defaultToken ts
   \<and> getRefreshToken ts (w\<lparr>storage := Map.empty\<rparr>) = defaultRefreshToken ts
   \<and> getToken ts (updateTokens_all (ps @ [(a, r)]) w) = a
   \<and> getRefreshToken ts (updateTokens_all (ps @ [(a, r)]) w) = r"
  using keys_distinct
  by (simp add: updateTokens_all_snoc getToken_def getRefreshToken_def getItem_def)

text \<open>
  Claim C10.  A read falls back to the configured default only when nothing at all is stored
  under its key; a stored value, the empty string included, is returned as it is.  So after
  \<open>updateTokens [] []\<close> both reads return the empty string, not the default.
\<close>

theorem tokens_fallback_only_when_absent:
  "getToken ts w = (case storage w KEY_TOKEN of None \<Rightarrow> defaultToken ts | Some v \<Rightarrow> v)
   \<and> getRefreshToken ts w =
       (case storage w KEY_REFRESH_TOKEN of None \<Rightarrow> defaultRefreshToken ts | Some v \<Rightarrow> v)
   \<and> getToken ts (updateTokens [] [] w) = []
   \<and> getRefreshToken ts (updateTokens [] [] w) = []"
  by (simp add: getToken_def getRefreshToken_def getItem_def)

section \<open>Refresh and resend\<close>

lemma refresh_then_resend_run:
  assumes live: "\<not> aborted w"
    and first: "tr (length (calls w)) = Responds r1" "status r1 = 401"
    and second: "tr (length (calls w) + 1) = Responds r2" "ok r2"
      "json r2 = TokenData (Some t) (Some rt)"
    and third: "tr (length (calls w) + 2) = Responds r3" "ok r3"
  shows "request ts tr req w =
           Some (Inr r3,
                 w\<lparr>storage := (storage w)(KEY_TOKEN \<mapsto> t, KEY_REFRESH_TOKEN \<mapsto> rt),
                   calls := calls w @
                     [authorized (getToken ts w) req,
                      authorized (getToken ts w) (tokenRequest (getRefreshToken ts w)),
                      authorized t req],
                   logs := logs w @ [''token expired, refreshing'',
                                     ''token refreshed, start resending request'']\<rparr>)"
proof -
  let ?a = "authorized (getToken ts w) req"
  let ?w2 = "logger ''token expired, refreshing'' (w\<lparr>calls := calls w @ [?a]\<rparr>)"
  let ?b = "authorized (getToken ts w) (tokenRequest (getRefreshToken ts w))"
  let ?w3 = "?w2\<lparr>calls := calls ?w2 @ [?b]\<rparr>"
  let ?w4 = "logger ''token refreshed, start resending request''
               (updateTokens_any (Some t) (Some rt) ?w3)"
  have "\<not> aborted ?w2" "tr (length (calls ?w2)) = Responds r2"
    using live second by simp_all
  from request_ok[where tr = tr and ts = ts and req = "tokenRequest (getRefreshToken ts w)",
      OF this \<open>ok r2\<close>]
  have refresh: "request ts tr (tokenRequest (getRefreshToken ts w)) ?w2 = Some (Inr r2, ?w3)"
    by simp
  have "\<not> aborted ?w4" "tr (length (calls ?w4)) = Responds r3"
    using live third by simp_all
  from request_ok[where tr = tr and ts = ts and req = ?a, OF this \<open>ok r3\<close>]
  have resend: "request ts tr ?a ?w4 = Some (Inr r3, ?w4\<lparr>calls := calls ?w4 @ [authorized t req]\<rparr>)"
    by simp
  have "request ts tr req w = Some (Inr r3, ?w4\<lparr>calls := calls ?w4 @ [authorized t req]\<rparr>)"
    by (simp only: request_401[where w = w and tr = tr, OF live first]
        refresh resend \<open>json r2 = TokenData (Some t) (Some rt)\<close> Option.bind.simps prod.case
        sum.case data_fields.simps option.case)
  also have "?w4\<lparr>calls := calls ?w4 @ [authorized t req]\<rparr> =
      w\<lparr>storage := (storage w)(KEY_TOKEN \<mapsto> t, KEY_REFRESH_TOKEN \<mapsto> rt),
                   calls := calls w @ [?a, ?b, authorized t req],
                   logs := logs w @ [''token expired, refreshing'',
                                     ''token refreshed, start resending request'']\<rparr>"
    by (simp add: logger_def updateTokens_def setItem_def)
  finally show ?thesis .
qed

text \<open>
  Claim C1.  For every request descriptor: if the first call is answered with status 401,
  the refresh call with a 2xx response whose data is a token pair \<open>(t, rt)\<close>, and the
  resent call with a 2xx response, then \<open>request\<close> returns that last response after exactly
  three network calls, in this order: the request; the POST to the token endpoint, with the
  refresh token of the store in its body; the request again, unchanged but for its headers.
  The store holds \<open>(t, rt)\<close> by then, and the third call already carries \<open>Bearer t\<close>.
  \<open>fetchActiveDevices\<close> makes the same three calls for the GET of the devices collection.
\<close>

theorem request_refresh_then_resend:
  assumes live: "\<not> aborted w"
    and first: "tr (length (calls w)) = Responds r1" "status r1 = 401"
    and second: "tr (length (calls w) + 1) = Responds r2" "ok r2"
      "json r2 = TokenData (Some t) (Some rt)"
    and third: "tr (length (calls w) + 2) = Responds r3" "ok r3"
  shows "request ts tr req w =
           Some (Inr r3,
                 w\<lparr>storage := (storage w)(''Token'' \<mapsto> t, ''RefreshToken'' \<mapsto> rt),
                   calls := calls w @
                     [req\<lparr>headers := [(''Authorization'', ''Bearer '' @ getToken ts w),
                                       (''Accept'', ''application/json'')]\<rparr>,
                      \<lparr>url = ''https://user-api.setapp.com/v1/token'', method_name = ''POST'',
                       body = Some [(''refresh_token'', getRefreshToken ts w)],
                       headers = [(''Authorization'', ''Bearer '' @ getToken ts w),
                                  (''Accept'', ''application/json'')]\<rparr>,
                      req\<lparr>headers := [(''Authorization'', ''Bearer '' @ t),
                                       (''Accept'', ''application/json'')]\<rparr>],
                   logs := logs w @ [''token expired, refreshing'',
                                     ''token refreshed, start resending request'']\<rparr>)
         \<and> map_option (\<lambda>(res, w'). (calls w', getToken ts w', getRefreshToken ts w'))
               (fetchActiveDevices ts tr w) =
             Some (calls w @
                     [\<lparr>url = ''https://user-api.setapp.com/v1/devices'', method_name = ''GET'',
                       body = None,
                       headers = [(''Authorization'', ''Bearer '' @ getToken ts w),
                                  (''Accept'', ''application/json'')]\<rparr>,
                      \<lparr>url = ''https://user-api.setapp.com/v1/token'', method_name = ''POST'',
                       body = Some [(''refresh_token'', getRefreshToken ts w)],
                       headers = [(''Authorization'', ''Bearer '' @ getToken ts w),
                                  (''Accept'', ''application/json'')]\<rparr>,
                      \<lparr>url = ''https://user-api.setapp.com/v1/devices'', method_name = ''GET'',
                       body = None,
                       headers = [(''Authorization'', ''Bearer '' @ t),
                                  (''Accept'', ''application/json'')]\<rparr>], t, rt)"
proof
  show "request ts tr req w =
           Some (Inr r3,
                 w\<lparr>storage := (storage w)(''Token'' \<mapsto> t, ''RefreshToken'' \<mapsto> rt),
                   calls := calls w @
                     [req\<lparr>headers := [(''Authorization'', ''Bearer '' @ getToken ts w),
                                       (''Accept'', ''application/json'')]\<rparr>,
                      \<lparr>url = ''https://user-api.setapp.com/v1/token'', method_name = ''POST'',
                       body = Some [(''refresh_token'', getRefreshToken ts w)],
                       headers = [(''Authorization'', ''Bearer '' @ getToken ts w),
                                  (''Accept'', ''application/json'')]\<rparr>,
                      req\<lparr>headers := [(''Authorization'', ''Bearer '' @ t),
                                       (''Accept'', ''application/json'')]\<rparr>],
                   logs := logs w @ [''token expired, refreshing'',
                                     ''token refreshed, start resending request'']\<rparr>)"
    by (simp add: refresh_then_resend_run[where tr = tr and w = w, OF assms]
        authorized_def tokenRequest_def KEY_TOKEN_def KEY_REFRESH_TOKEN_def)
next
  let ?w0 = "logger ''start fetching devices.'' w"
  have "\<not> aborted ?w0" "tr (length (calls ?w0)) = Responds r1"
    "tr (length (calls ?w0) + 1) = Responds r2" "tr (length (calls ?w0) + 2) = Responds r3"
    using live first second third by simp_all
  note fetched = refresh_then_resend_run[where tr = tr and w = ?w0 and req = devicesRequest
      and ts = ts, OF this(1,2) first(2) this(3) second(2,3) this(4) third(2)]
  have fetching: "map_option (\<lambda>(res, w'). (calls w', getToken ts w', getRefreshToken ts w'))
               (fetchActiveDevices ts tr w) =
             Some (calls w @
                     [authorized (getToken ts w) devicesRequest,
                      authorized (getToken ts w) (tokenRequest (getRefreshToken ts w)),
                      authorized t devicesRequest], t, rt)"
    using keys_distinct
    by (simp add: fetchActiveDevices_def fetched getToken_def getRefreshToken_def getItem_def
        split: payload.splits)
  show "map_option (\<lambda>(res, w'). (calls w', getToken ts w', getRefreshToken ts w'))
               (fetchActiveDevices ts tr w) =
             Some (calls w @
                     [\<lparr>url = ''https://user-api.setapp.com/v1/devices'', method_name = ''GET'',
                       body = None,
                       headers = [(''Authorization'', ''Bearer '' @ getToken ts w),
                                  (''Accept'', ''application/json'')]\<rparr>,
                      \<lparr>url = ''https://user-api.setapp.com/v1/token'', method_name = ''POST'',
                       body = Some [(''refresh_token'', getRefreshToken ts w)],
                       headers = [(''Authorization'', ''Bearer '' @ getToken ts w),
                                  (''Accept'', ''application/json'')]\<rparr>,
                      \<lparr>url = ''https://user-api.setapp.com/v1/devices'', method_name = ''GET'',
                       body = None,
                       headers = [(''Authorization'', ''Bearer '' @ t),
                                  (''Accept'', ''application/json'')]\<rparr>], t, rt)"
    using fetching by (simp add: authorized_def tokenRequest_def devicesRequest_def)
qed

text \<open>The scenario of the test \<^verbatim>\<open>refresh token\<close>, with the token store of
  \<^verbatim>\<open>createSetappClient\<close>.\<close>

theorem request_refresh_then_resend_witness:
  "\<not> aborted world0
   \<and> expired_once (length (calls world0)) = Responds unauthorized \<and> status unauthorized = 401
   \<and> expired_once (length (calls world0) + 1) = Responds refreshed \<and> ok refreshed
   \<and> json refreshed = TokenData (Some ''11'') (Some ''22'')
   \<and> expired_once (length (calls world0) + 2) = Responds listing \<and> ok listing
   \<and> request store0 expired_once
        \<lparr>url = ''https://user-api.setapp.com/v1/devices'', method_name = ''GET'', body = None,
         headers = []\<rparr> world0 =
       Some (Inr \<lparr>status = 200, json = DeviceData [\<lparr>id_num = 123, name = ''macOS''\<rparr>]\<rparr>,
             \<lparr>storage = [''Token'' \<mapsto> ''11'', ''RefreshToken'' \<mapsto> ''22''],
              calls =
                [\<lparr>url = ''https://user-api.setapp.com/v1/devices'', method_name = ''GET'',
                  body = None,
                  headers = [(''Authorization'', ''Bearer t0''),
                             (''Accept'', ''application/json'')]\<rparr>,
                 \<lparr>url = ''https://user-api.setapp.com/v1/token'', method_name = ''POST'',
                  body = Some [(''refresh_token'', ''r0'')],
                  headers = [(''Authorization'', ''Bearer t0''),
                             (''Accept'', ''application/json'')]\<rparr>,
                 \<lparr>url = ''https://user-api.setapp.com/v1/devices'', method_name = ''GET'',
                  body = None,
                  headers = [(''Authorization'', ''Bearer 11''),
                             (''Accept'', ''application/json'')]\<rparr>],
              logs = [''token expired, refreshing'',
                      ''token refreshed, start resending request''],
              aborted = False\<rparr>)"
  using request_refresh_then_resend[of world0 expired_once unauthorized refreshed
      "''11''" "''22''" listing store0
      "\<lparr>url = ''https://user-api.setapp.com/v1/devices'', method_name = ''GET'', body = None,
        headers = []\<rparr>"]
  by (simp add: scenario_defs ok_def getToken_def getRefreshToken_def getItem_def)

section \<open>Terminal failures\<close>

text \<open>
  Claim C5.  For every request descriptor: if the response to the call has a status that is
  neither 2xx nor 401, the pipeline fails with the error whose message is
  \<open>request error: \<close> followed by the URL of the request.  The final state is the initial
  one with that single call added: no further call is made and the token store is unchanged.
  This holds for \<open>SetappClient.request\<close> and for the \<open>request\<close> nested in \<open>main\<close>.
\<close>

theorem other_status_fails_without_retry:
  assumes "\<not> ok resp" and "status resp \<noteq> 401"
  shows "(\<not> aborted w \<and> tr (length (calls w)) = Responds resp \<longrightarrow>
            request ts tr req w =
              Some (Inl (RequestError (''request error: '' @ url req)),
                    w\<lparr>calls := calls w @ [authorized (getToken ts w) req]\<rparr>))
         \<and> (answers (length (calls w)) = resp \<longrightarrow>
            main_request ts answers req w =
              Some (Inl (RequestError (''request error: '' @ url req)),
                    w\<lparr>calls := calls w @ [authorized (getToken ts w) req]\<rparr>))"
proof (intro conjI impI)
  assume "\<not> aborted w \<and> tr (length (calls w)) = Responds resp"
  with assms show "request ts tr req w =
              Some (Inl (RequestError (''request error: '' @ url req)),
                    w\<lparr>calls := calls w @ [authorized (getToken ts w) req]\<rparr>)"
    by (simp add: request_other)
next
  assume "answers (length (calls w)) = resp"
  with assms show "main_request ts answers req w =
              Some (Inl (RequestError (''request error: '' @ url req)),
                    w\<lparr>calls := calls w @ [authorized (getToken ts w) req]\<rparr>)"
    by (subst main_request.simps) (auto simp add: fetch_main_def)
qed

text \<open>The test \<^verbatim>\<open>unexpected fetch error\<close>: status 500 to the devices request.\<close>

theorem other_status_fails_without_retry_witness:
  "\<not> ok server_error \<and> status server_error \<noteq> 401 \<and> \<not> aborted world0
   \<and> always_error (length (calls world0)) = Responds server_error
   \<and> request store0 always_error devicesRequest world0 =
       Some (Inl (RequestError ''request error: https://user-api.setapp.com/v1/devices''),
             world0\<lparr>calls := [authorized ''t0'' devicesRequest]\<rparr>)
   \<and> main_request store0 (\<lambda>k. server_error) devicesRequest world0 =
       Some (Inl (RequestError ''request error: https://user-api.setapp.com/v1/devices''),
             world0\<lparr>calls := [authorized ''t0'' devicesRequest]\<rparr>)"
  using other_status_fails_without_retry[of server_error world0 always_error store0
      devicesRequest "\<lambda>k. server_error"]
  by (simp add: scenario_defs ok_def devicesRequest_def getToken_def getItem_def)

section \<open>The refresh request\<close>

lemma refresh_call_in_returning_run:
  assumes live: "\<not> aborted w"
    and first: "tr (length (calls w)) = Responds resp" "status resp = 401"
    and run: "request ts tr req w = Some (res, w')"
  shows "\<exists>cs. calls w' = calls w @
            [authorized (getToken ts w) req,
             authorized (getToken ts w) (tokenRequest (getRefreshToken ts w))] @ cs"
proof -
  let ?a = "authorized (getToken ts w) req"
  let ?b = "authorized (getToken ts w) (tokenRequest (getRefreshToken ts w))"
  let ?w2 = "logger ''token expired, refreshing'' (w\<lparr>calls := calls w @ [?a]\<rparr>)"
  note step = request_401[where w = w and tr = tr and ts = ts and req = req, OF live first]
  from run[unfolded step] obtain res3 w3 where
    inner: "request ts tr (tokenRequest (getRefreshToken ts w)) ?w2 = Some (res3, w3)"
    and rest: "(case res3 of Inl e \<Rightarrow> Some (Inl e, w3)
         | Inr resp2 \<Rightarrow> (case data_fields (json resp2) of
               None \<Rightarrow> Some (Inl ParseError, w3)
             | Some (token, refresh_token) \<Rightarrow>
                 request ts tr ?a (logger ''token refreshed, start resending request''
                                     (updateTokens_any token refresh_token w3)))) = Some (res, w')"
    by (auto split: Option.bind_splits)
  have "\<not> aborted ?w2" using live by simp
  from request_first_call[OF inner this] obtain cs where
    c3: "calls w3 = calls w @ [?a, ?b] @ cs"
    by auto
  have "\<exists>ds. calls w' = calls w3 @ ds"
  proof (cases res3)
    case (Inl e)
    with rest show ?thesis by auto
  next
    case (Inr resp2)
    show ?thesis
    proof (cases "data_fields (json resp2)")
      case None
      with rest Inr show ?thesis by auto
    next
      case (Some pair)
      obtain t rt where pair: "pair = (t, rt)" by (cases pair)
      with rest Inr Some
      have "request ts tr ?a (logger ''token refreshed, start resending request''
                                (updateTokens_any t rt w3)) = Some (res, w')" by simp
      from request_calls_grow[OF this] show ?thesis by simp
    qed
  qed
  with c3 show ?thesis by auto
qed

lemma request_cut_at_refresh:
  assumes live: "\<not> aborted w"
    and first: "tr (length (calls w)) = Responds resp" "status resp = 401"
  shows "request ts (tr(Suc (length (calls w)) := Disposes)) req w =
           Some (Inl AbortError,
                 w\<lparr>calls := calls w @
                     [authorized (getToken ts w) req,
                      authorized (getToken ts w) (tokenRequest (getRefreshToken ts w))],
                   logs := logs w @ [''token expired, refreshing''],
                   aborted := True\<rparr>)"
proof -
  let ?tr = "tr(Suc (length (calls w)) := Disposes)"
  let ?a = "authorized (getToken ts w) req"
  let ?w2 = "logger ''token expired, refreshing'' (w\<lparr>calls := calls w @ [?a]\<rparr>)"
  have f: "?tr (length (calls w)) = Responds resp" using first(1) by simp
  have "\<not> aborted ?w2" "?tr (length (calls ?w2)) = Disposes" using live by simp_all
  note inner = request_disposes[where tr = ?tr and ts = ts
      and req = "tokenRequest (getRefreshToken ts w)", OF this]
  show ?thesis
    by (simp only: request_401[where w = w and tr = ?tr, OF live f first(2)] inner
        Option.bind.simps prod.case sum.case)
       (simp add: logger_def)
qed

lemma expired_once_run:
  "request store0 expired_once devicesRequest world0 =
     Some (Inr listing,
           \<lparr>storage = [KEY_TOKEN \<mapsto> ''11'', KEY_REFRESH_TOKEN \<mapsto> ''22''],
            calls = [authorized ''t0'' devicesRequest, authorized ''t0'' (tokenRequest ''r0''),
                     authorized ''11'' devicesRequest],
            logs = [''token expired, refreshing'', ''token refreshed, start resending request''],
            aborted = False\<rparr>)"
  by (simp add: request.simps scenario_defs fetch_def ok_def logger_def updateTokens_def
      setItem_def getToken_def getRefreshToken_def getItem_def KEY_TOKEN_def KEY_REFRESH_TOKEN_def)

text \<open>
  Claim C6.  When a live call is answered with 401, the next call of the run is the refresh
  request: a POST to the token endpoint whose body is the object with the field
  \<open>refresh_token\<close> set to the refresh token of the store at that moment.  It goes through
  \<open>request\<close> itself, so its Authorization header is built from the access token of the
  store at that moment: the one the rejected call carried.  This is read off the calls of
  every run that returns; and, for a run that may not return, off the run that is cut
  short at its second call.
\<close>

theorem refresh_call_after_401:
  assumes live: "\<not> aborted w"
    and first: "tr (length (calls w)) = Responds resp" "status resp = 401"
  shows "(request ts tr req w = Some (res, w') \<longrightarrow>
            (\<exists>cs. calls w' = calls w @
               [authorized (getToken ts w) req,
                authorized (getToken ts w) (tokenRequest (getRefreshToken ts w))] @ cs))
         \<and> request ts (tr(Suc (length (calls w)) := Disposes)) req w =
             Some (Inl AbortError,
                   w\<lparr>calls := calls w @
                       [authorized (getToken ts w) req,
                        authorized (getToken ts w) (tokenRequest (getRefreshToken ts w))],
                     logs := logs w @ [''token expired, refreshing''],
                     aborted := True\<rparr>)
         \<and> authorized (getToken ts w) (tokenRequest (getRefreshToken ts w)) =
             \<lparr>url = ''https://user-api.setapp.com/v1/token'', method_name = ''POST'',
              body = Some [(''refresh_token'', getRefreshToken ts w)],
              headers = [(''Authorization'', ''Bearer '' @ getToken ts w),
                         (''Accept'', ''application/json'')]\<rparr>"
  using refresh_call_in_returning_run[where tr = tr and w = w and ts = ts and req = req
      and res = res and w' = w', OF assms]
    request_cut_at_refresh[where tr = tr and w = w and ts = ts and req = req, OF assms]
  by (simp add: authorized_def tokenRequest_def)

theorem refresh_call_after_401_witness:
  "\<not> aborted world0 \<and> expired_once (length (calls world0)) = Responds unauthorized
   \<and> status unauthorized = 401
   \<and> (\<exists>res w' cs. request store0 expired_once devicesRequest world0 = Some (res, w')
        \<and> calls w' =
            [authorized ''t0'' devicesRequest,
             \<lparr>url = ''https://user-api.setapp.com/v1/token'', method_name = ''POST'',
              body = Some [(''refresh_token'', ''r0'')],
              headers = [(''Authorization'', ''Bearer t0''), (''Accept'', ''application/json'')]\<rparr>]
            @ cs)"
proof -
  let ?W = "\<lparr>storage = [KEY_TOKEN \<mapsto> ''11'', KEY_REFRESH_TOKEN \<mapsto> ''22''],
            calls = [authorized ''t0'' devicesRequest, authorized ''t0'' (tokenRequest ''r0''),
                     authorized ''11'' devicesRequest],
            logs = [''token expired, refreshing'', ''token refreshed, start resending request''],
            aborted = False\<rparr>"
  have h: "\<not> aborted world0" "expired_once (length (calls world0)) = Responds unauthorized"
    "status unauthorized = 401"
    by (simp_all add: scenario_defs)
  have t: "getToken store0 world0 = ''t0''" "getRefreshToken store0 world0 = ''r0''"
    by (simp_all add: scenario_defs getToken_def getRefreshToken_def getItem_def)
  have c0: "calls world0 = []" by (simp add: world0_def)
  note T = refresh_call_after_401[where tr = expired_once and w = world0 and ts = store0
      and req = devicesRequest and res = "Inr listing" and w' = ?W, OF h]
  from T expired_once_run
  have "\<exists>cs. calls ?W = calls world0 @
          [authorized (getToken store0 world0) devicesRequest,
           authorized (getToken store0 world0) (tokenRequest (getRefreshToken store0 world0))] @ cs"
    by blast
  moreover from T
  have "authorized (getToken store0 world0) (tokenRequest (getRefreshToken store0 world0)) =
          \<lparr>url = ''https://user-api.setapp.com/v1/token'', method_name = ''POST'',
           body = Some [(''refresh_token'', getRefreshToken store0 world0)],
           headers = [(''Authorization'', ''Bearer '' @ getToken store0 world0),
                      (''Accept'', ''application/json'')]\<rparr>"
    by blast
  ultimately have "\<exists>cs. calls ?W =
      [authorized ''t0'' devicesRequest,
       \<lparr>url = ''https://user-api.setapp.com/v1/token'', method_name = ''POST'',
        body = Some [(''refresh_token'', ''r0'')],
        headers = [(''Authorization'', ''Bearer t0''), (''Accept'', ''application/json'')]\<rparr>]
      @ cs"
    by (simp add: t c0)
  with h expired_once_run show ?thesis by blast
qed

section \<open>Unbounded recursion\<close>

text \<open>
  Claim C4, as amended.  The pipeline recurses on every 401 with no depth limit: over a
  transport that answers 401 to every call, \<open>request\<close> never returns.  Over a transport
  that answers 401 to finitely many calls only (from some call \<open>N\<close> on, no answer is a
  401), \<open>request\<close> returns.
\<close>

theorem unbounded_refresh_recursion:
  "(\<not> aborted w \<and> (\<forall>k\<ge>length (calls w). \<exists>resp. tr k = Responds resp \<and> status resp = 401)
      \<longrightarrow> request ts tr req w = None)
   \<and> ((\<exists>N. \<forall>k\<ge>N. \<forall>resp. tr k = Responds resp \<longrightarrow> status resp \<noteq> 401)
      \<longrightarrow> (\<exists>out. request ts tr req w = Some out))"
  using request_diverges[of w tr ts req] request_returns[of _ tr ts req w] by blast

theorem unbounded_refresh_recursion_witness:
  "\<not> aborted world0
   \<and> request store0 always_unauthorized devicesRequest world0 = None
   \<and> (\<exists>out. request store0 expired_once devicesRequest world0 = Some out)"
proof -
  have a: "\<not> aborted world0"
    "\<forall>k\<ge>length (calls world0). \<exists>resp. always_unauthorized k = Responds resp \<and> status resp = 401"
    by (simp_all add: scenario_defs)
  have "\<forall>k\<ge>1. \<forall>resp. expired_once k = Responds resp \<longrightarrow> status resp \<noteq> 401"
    by (auto simp add: scenario_defs)
  then have b: "\<exists>N. \<forall>k\<ge>N. \<forall>resp. expired_once k = Responds resp \<longrightarrow> status resp \<noteq> 401"
    by blast
  from a b
    unbounded_refresh_recursion[of world0 always_unauthorized store0 devicesRequest]
    unbounded_refresh_recursion[of world0 expired_once store0 devicesRequest]
  show ?thesis by blast
qed

text \<open>
  The claim as stated asks only that the 401s come in finite runs, each followed by another
  status.  The transport \<open>alternating\<close> answers every 401 with a 2xx token pair on the very
  next call, and \<open>request\<close> never returns over it: each resend is rejected again.
\<close>

theorem alternating_transport_diverges:
  "alternating 0 = Responds unauthorized \<and> alternating 1 = Responds refreshed
   \<and> alternating 2 = Responds unauthorized \<and> alternating 3 = Responds refreshed
   \<and> status unauthorized = 401 \<and> ok refreshed
   \<and> request store0 alternating devicesRequest world0 = None"
proof -
  have "request store0 alternating devicesRequest world0 = None"
  proof (cases "request store0 alternating devicesRequest world0")
    case (Some out)
    then obtain res w' where "request store0 alternating devicesRequest world0 = Some (res, w')"
      by (cases out) auto
    from alternating_returns_at_odd_calls[OF this] show ?thesis by (simp add: world0_def)
  qed simp
  then show ?thesis by (simp add: scenario_defs ok_def)
qed

section \<open>What a run writes to the token store\<close>

lemma storage_updateTokens_any_all_cong:
  "storage w1 = storage w2 \<Longrightarrow>
   storage (updateTokens_any_all ps w1) = storage (updateTokens_any_all ps w2)"
  by (induction ps arbitrary: w1 w2) auto

lemma updateTokens_any_all_append:
  "updateTokens_any_all (ps @ qs) w = updateTokens_any_all qs (updateTokens_any_all ps w)"
  by (induction ps arbitrary: w) auto

lemma pairs_between_empty [simp]: "pairs_between tr cs n n = []"
  by (simp add: pairs_between_def)

lemma upt_split: "n \<le> k \<Longrightarrow> k \<le> m \<Longrightarrow> [n..<m] = [n..<k] @ [k..<m]"
  using upt_add_eq_append[of n k "m - k"] by simp

lemma pairs_between_split:
  "n \<le> k \<Longrightarrow> k \<le> m \<Longrightarrow>
   pairs_between tr cs n m = pairs_between tr cs n k @ pairs_between tr cs k m"
  by (simp add: pairs_between_def upt_split[of n k m])

lemma pairs_between_first:
  "n < m \<Longrightarrow> pairs_between tr cs n m = refresh_answer tr cs n @ pairs_between tr cs (Suc n) m"
  by (simp add: pairs_between_def upt_conv_Cons)

lemma pairs_between_prefix:
  "m \<le> length cs \<Longrightarrow> pairs_between tr (cs @ ds) n m = pairs_between tr cs n m"
  by (auto simp: pairs_between_def refresh_answer_def nth_append intro!: arg_cong[where f = concat])

lemma refresh_answer_last:
  "refresh_answer tr (cs @ a # ds) (length cs) =
     (if url a = ''https://user-api.setapp.com/v1/token''
      then (case tr (length cs) of
              Responds resp \<Rightarrow>
                (if ok resp then (case data_fields (json resp) of None \<Rightarrow> [] | Some p \<Rightarrow> [p])
                 else [])
            | Disposes \<Rightarrow> [])
      else [])"
  by (simp add: refresh_answer_def)

lemma request_store_trace:
  assumes "request ts tr req w = Some (res, w')"
  shows "(\<exists>cs. calls w' = calls w @ cs)
     \<and> (\<forall>resp. res = Inr resp \<longrightarrow> ok resp)
     \<and> (\<exists>written. storage w' = storage (updateTokens_any_all written w) \<and>
          pairs_between tr (calls w') (length (calls w)) (length (calls w')) =
            written @
            (if url req = ''https://user-api.setapp.com/v1/token''
             then (case res of
                     Inl e \<Rightarrow> []
                   | Inr resp \<Rightarrow> (case data_fields (json resp) of None \<Rightarrow> [] | Some p \<Rightarrow> [p]))
             else []))"
  using assms
proof (induction req w "(res, w')" arbitrary: res w' rule: request_induct)
  case (rejected req w e w1)
  show ?case
  proof (cases "aborted w")
    case True
    with fetch_Inl[OF rejected] have "w1 = w" by simp
    then show ?thesis by (auto intro!: exI[where x = "[]"])
  next
    case False
    with fetch_Inl[OF rejected] have d: "tr (length (calls w)) = Disposes"
      and c: "calls w1 = calls w @ [authorized (getToken ts w) req]" by simp_all
    from rejected False have "storage w1 = storage w"
      by (auto simp add: fetch_def split: event.splits)
    with d c show ?thesis
      by (auto intro!: exI[where x = "[]"] simp: pairs_between_first refresh_answer_last)
  qed
next
  case (ok req w resp w1)
  from fetch_Inr[OF ok(1)] ok(2) show ?case
    by (auto intro!: exI[where x = "[]"] simp: pairs_between_first refresh_answer_last)
next
  case (other req w resp w1)
  from fetch_Inr[OF other(1)] other(2) show ?case
    by (auto intro!: exI[where x = "[]"] simp: pairs_between_first refresh_answer_last)
next
  case (refresh_failed req w resp w1 w2 e w3)
  from fetch_Inr[OF refresh_failed(1)]
  have r: "tr (length (calls w)) = Responds resp"
    and w1: "w1 = w\<lparr>calls := calls w @ [authorized (getToken ts w) req]\<rparr>" by simp_all
  from refresh_failed(5) w1 refresh_failed(4) obtain cs written where
    c3: "calls w3 = calls w @ authorized (getToken ts w) req # cs"
    and s3: "storage w3 = storage (updateTokens_any_all written w2)"
    and p3: "pairs_between tr (calls w3) (Suc (length (calls w))) (length (calls w3)) = written"
    by (auto simp: tokenRequest_def)
  have "storage w2 = storage w" using w1 refresh_failed(4) by simp
  from storage_updateTokens_any_all_cong[OF this] s3
  have s: "storage w3 = storage (updateTokens_any_all written w)" by simp
  have "pairs_between tr (calls w3) (length (calls w)) (length (calls w3)) = written"
    using c3 p3 r refresh_failed(2)
    by (simp add: pairs_between_first[of "length (calls w)"] refresh_answer_last)
  with s c3 show ?case by auto
next
  case (refresh_malformed req w resp w1 w2 resp2 w3)
  from fetch_Inr[OF refresh_malformed(1)]
  have r: "tr (length (calls w)) = Responds resp"
    and w1: "w1 = w\<lparr>calls := calls w @ [authorized (getToken ts w) req]\<rparr>" by simp_all
  from refresh_malformed(5) w1 refresh_malformed(4,6) obtain cs written where
    c3: "calls w3 = calls w @ authorized (getToken ts w) req # cs"
    and s3: "storage w3 = storage (updateTokens_any_all written w2)"
    and p3: "pairs_between tr (calls w3) (Suc (length (calls w))) (length (calls w3)) = written"
    by (auto simp: tokenRequest_def)
  have "storage w2 = storage w" using w1 refresh_malformed(4) by simp
  from storage_updateTokens_any_all_cong[OF this] s3
  have s: "storage w3 = storage (updateTokens_any_all written w)" by simp
  have "pairs_between tr (calls w3) (length (calls w)) (length (calls w3)) = written"
    using c3 p3 r refresh_malformed(2)
    by (simp add: pairs_between_first[of "length (calls w)"] refresh_answer_last)
  with s c3 show ?case by auto
next
  case (resent req w resp w1 w2 resp2 w3 t rt res w')
  let ?TOKEN = "''https://user-api.setapp.com/v1/token''"
  let ?w4 = "logger ''token refreshed, start resending request'' (updateTokens_any t rt w3)"
  let ?pending = "if url req = ?TOKEN
             then (case res of
                     Inl e \<Rightarrow> []
                   | Inr resp \<Rightarrow> (case data_fields (json resp) of None \<Rightarrow> [] | Some p \<Rightarrow> [p]))
             else []"
  from fetch_Inr[OF resent(1)]
  have r: "tr (length (calls w)) = Responds resp"
    and w1: "w1 = w\<lparr>calls := calls w @ [authorized (getToken ts w) req]\<rparr>" by simp_all
  from resent(5) w1 resent(4,6) obtain cs written where
    c3: "calls w3 = calls w @ authorized (getToken ts w) req # cs"
    and s3: "storage w3 = storage (updateTokens_any_all written w2)"
    and p3: "pairs_between tr (calls w3) (Suc (length (calls w))) (length (calls w3)) =
               written @ [(t, rt)]"
    by (auto simp: tokenRequest_def)
  have "storage w2 = storage w" using w1 resent(4) by simp
  from storage_updateTokens_any_all_cong[OF this] s3
  have s: "storage w3 = storage (updateTokens_any_all written w)" by simp
  have p: "pairs_between tr (calls w3) (length (calls w)) (length (calls w3)) = written @ [(t, rt)]"
    using c3 p3 r resent(2)
    by (simp add: pairs_between_first[of "length (calls w)"] refresh_answer_last)
  from resent(7) obtain ds written' where
    c': "calls w' = calls w3 @ ds"
    and okr: "\<forall>resp. res = Inr resp \<longrightarrow> ok resp"
    and s': "storage w' = storage (updateTokens_any_all written' ?w4)"
    and p': "pairs_between tr (calls w') (length (calls w3)) (length (calls w')) =
               written' @ ?pending"
    by auto
  have "storage ?w4 = storage (updateTokens_any_all (written @ [(t, rt)]) w)"
    using s by (simp add: updateTokens_any_all_append)
  from storage_updateTokens_any_all_cong[OF this, of written'] s'
  have S: "storage w' = storage (updateTokens_any_all ((written @ [(t, rt)]) @ written') w)"
    by (simp add: updateTokens_any_all_append)
  have "pairs_between tr (calls w') (length (calls w)) (length (calls w')) =
        pairs_between tr (calls w') (length (calls w)) (length (calls w3)) @
        pairs_between tr (calls w') (length (calls w3)) (length (calls w'))"
    using c3 c' by (intro pairs_between_split) simp_all
  also have "pairs_between tr (calls w') (length (calls w)) (length (calls w3)) =
        pairs_between tr (calls w3) (length (calls w)) (length (calls w3))"
    unfolding c' by (rule pairs_between_prefix) simp
  finally have P: "pairs_between tr (calls w') (length (calls w)) (length (calls w')) =
        ((written @ [(t, rt)]) @ written') @ ?pending"
    using p p' by simp
  from c3 c' have "\<exists>cs. calls w' = calls w @ cs" by simp
  with okr S P show ?case by blast
qed

section \<open>Non-empty tokens\<close>

lemma tokens_nonempty_frame [simp]:
  "tokens_nonempty ts (w\<lparr>calls := cs\<rparr>) = tokens_nonempty ts w"
  "tokens_nonempty ts (w\<lparr>calls := cs, aborted := b\<rparr>) = tokens_nonempty ts w"
  "tokens_nonempty ts (logger s w) = tokens_nonempty ts w"
  by (simp_all add: tokens_nonempty_def)

lemma tokens_nonempty_updateTokens [simp]:
  "tokens_nonempty ts (updateTokens a r w) = (a \<noteq> [] \<and> r \<noteq> [])"
  by (simp add: tokens_nonempty_def)

lemma tokens_nonempty_storage:
  "storage w = storage w' \<Longrightarrow> tokens_nonempty ts w = tokens_nonempty ts w'"
  by (simp add: tokens_nonempty_def getToken_def getRefreshToken_def getItem_def)

lemma updateTokens_all_nonempty:
  "list_all (\<lambda>(a, r). a \<noteq> [] \<and> r \<noteq> []) ps \<Longrightarrow> tokens_nonempty ts w \<Longrightarrow>
   tokens_nonempty ts (updateTokens_all ps w)"
  by (induction ps arbitrary: w) auto

lemma updateTokens_any_all_nonempty:
  "list_all (\<lambda>(a, r). nonempty_string a \<and> nonempty_string r) ps \<Longrightarrow> tokens_nonempty ts w \<Longrightarrow>
   tokens_nonempty ts (updateTokens_any_all ps w)"
  by (induction ps arbitrary: w) (auto simp: nonempty_string_def split: option.splits)

lemma request_store_is_passed_pairs:
  assumes "request ts tr req w = Some (res, w')"
    and "url req \<noteq> ''https://user-api.setapp.com/v1/token''"
  shows "storage w' = storage (updateTokens_any_all (passed_to_updateTokens tr w w') w)"
  using request_store_trace[OF assms(1)] assms(2) by (auto simp: passed_to_updateTokens_def)

lemma fetchActiveDevices_store_is_passed_pairs:
  assumes "fetchActiveDevices ts tr w = Some (res, w')"
  shows "storage w' = storage (updateTokens_any_all (passed_to_updateTokens tr w w') w)"
proof -
  let ?w0 = "logger ''start fetching devices.'' w"
  from assms obtain res1 w1 where
    run: "request ts tr devicesRequest ?w0 = Some (res1, w1)"
    and same: "calls w' = calls w1" "storage w' = storage w1"
    by (auto simp: fetchActiveDevices_def split: Option.bind_splits sum.splits payload.splits
        if_splits)
  have "url devicesRequest \<noteq> ''https://user-api.setapp.com/v1/token''"
    by (simp add: devicesRequest_def)
  from request_store_is_passed_pairs[OF run this]
  have "storage w1 = storage (updateTokens_any_all (passed_to_updateTokens tr ?w0 w1) ?w0)" .
  also have "passed_to_updateTokens tr ?w0 w1 = passed_to_updateTokens tr w w'"
    using same by (simp add: passed_to_updateTokens_def)
  also have "storage (updateTokens_any_all (passed_to_updateTokens tr w w') ?w0) =
             storage (updateTokens_any_all (passed_to_updateTokens tr w w') w)"
    by (rule storage_updateTokens_any_all_cong) simp
  finally show ?thesis using same by simp
qed

lemma disconnectDeviceById_store_is_passed_pairs:
  assumes "disconnectDeviceById ts tr i w = Some (res, w')"
  shows "storage w' = storage (updateTokens_any_all (passed_to_updateTokens tr w w') w)"
proof -
  let ?w0 = "logger (''disconnecting device of id: '' @ string_of_int i) w"
  from assms obtain res1 w1 where
    run: "request ts tr (deviceRequest i) ?w0 = Some (res1, w1)"
    and same: "calls w' = calls w1" "storage w' = storage w1"
    by (auto simp: disconnectDeviceById_def split: Option.bind_splits sum.splits)
  have "url (deviceRequest i) \<noteq> ''https://user-api.setapp.com/v1/token''"
    by (simp add: deviceRequest_def)
  from request_store_is_passed_pairs[OF run this]
  have "storage w1 = storage (updateTokens_any_all (passed_to_updateTokens tr ?w0 w1) ?w0)" .
  also have "passed_to_updateTokens tr ?w0 w1 = passed_to_updateTokens tr w w'"
    using same by (simp add: passed_to_updateTokens_def)
  also have "storage (updateTokens_any_all (passed_to_updateTokens tr w w') ?w0) =
             storage (updateTokens_any_all (passed_to_updateTokens tr w w') w)"
    by (rule storage_updateTokens_any_all_cong) simp
  finally show ?thesis using same by simp
qed

lemma passed_pairs_nonempty:
  assumes "storage w' = storage (updateTokens_any_all (passed_to_updateTokens tr w w') w)"
    and "tokens_nonempty ts w"
    and "list_all (\<lambda>(a, r). nonempty_string a \<and> nonempty_string r) (passed_to_updateTokens tr w w')"
  shows "tokens_nonempty ts w'"
  using updateTokens_any_all_nonempty[OF assms(3,2)] tokens_nonempty_storage[OF assms(1), of ts]
  by simp

lemma expired_once_fetch:
  "fetchActiveDevices store0 expired_once world0 =
     Some (Inr [\<lparr>id_num = 123, name = ''macOS''\<rparr>],
           \<lparr>storage = [KEY_TOKEN \<mapsto> ''11'', KEY_REFRESH_TOKEN \<mapsto> ''22''],
            calls = [authorized ''t0'' devicesRequest, authorized ''t0'' (tokenRequest ''r0''),
                     authorized ''11'' devicesRequest],
            logs = [''start fetching devices.'', ''token expired, refreshing'',
                    ''token refreshed, start resending request'', ''fetched devices: macOS''],
            aborted = False\<rparr>)"
  by (simp add: fetchActiveDevices_def request.simps scenario_defs fetch_def ok_def logger_def
      updateTokens_def setItem_def getToken_def getRefreshToken_def getItem_def KEY_TOKEN_def
      KEY_REFRESH_TOKEN_def)

lemma expired_once_passed:
  "passed_to_updateTokens expired_once world0
     \<lparr>storage = [KEY_TOKEN \<mapsto> ''11'', KEY_REFRESH_TOKEN \<mapsto> ''22''],
      calls = [authorized ''t0'' devicesRequest, authorized ''t0'' (tokenRequest ''r0''),
               authorized ''11'' devicesRequest],
      logs = [''start fetching devices.'', ''token expired, refreshing'',
              ''token refreshed, start resending request'', ''fetched devices: macOS''],
      aborted = False\<rparr> = [(Some ''11'', Some ''22'')]"
  by (simp add: passed_to_updateTokens_def pairs_between_def refresh_answer_def upt_rec
      scenario_defs ok_def devicesRequest_def tokenRequest_def)

text \<open>
  Claim C3, as amended.  With non-empty configured defaults the pair read from an empty store
  is non-empty, and both fields stay non-empty for as long as every pair passed to
  \<open>updateTokens\<close> consists of non-empty strings: across any list of \<open>updateTokens\<close> calls,
  and across any returning run of \<open>fetchActiveDevices\<close>, of \<open>disconnectDeviceById\<close> and of
  \<open>request\<close> for a descriptor that is not itself aimed at the token endpoint.  For such a
  run the pairs passed are \<open>passed_to_updateTokens\<close>: the store after the run is the store
  before it with exactly these pairs written, in order.
\<close>

theorem tokens_stay_nonempty:
  assumes "defaultToken ts \<noteq> []" and "defaultRefreshToken ts \<noteq> []"
  shows "tokens_nonempty ts (w\<lparr>storage := Map.empty\<rparr>)
         \<and> (list_all (\<lambda>(a, r). a \<noteq> [] \<and> r \<noteq> []) ps \<and> tokens_nonempty ts w \<longrightarrow>
              tokens_nonempty ts (updateTokens_all ps w))
         \<and> (fetchActiveDevices ts tr w = Some (res, w') \<longrightarrow>
              storage w' = storage (updateTokens_any_all (passed_to_updateTokens tr w w') w)
              \<and> (tokens_nonempty ts w
                  \<and> list_all (\<lambda>(a, r). nonempty_string a \<and> nonempty_string r)
                       (passed_to_updateTokens tr w w')
                 \<longrightarrow> tokens_nonempty ts w'))
         \<and> (disconnectDeviceById ts tr i w = Some (res2, w2) \<longrightarrow>
              storage w2 = storage (updateTokens_any_all (passed_to_updateTokens tr w w2) w)
              \<and> (tokens_nonempty ts w
                  \<and> list_all (\<lambda>(a, r). nonempty_string a \<and> nonempty_string r)
                       (passed_to_updateTokens tr w w2)
                 \<longrightarrow> tokens_nonempty ts w2))
         \<and> (request ts tr req w = Some (res3, w3)
              \<and> url req \<noteq> ''https://user-api.setapp.com/v1/token'' \<longrightarrow>
              storage w3 = storage (updateTokens_any_all (passed_to_updateTokens tr w w3) w)
              \<and> (tokens_nonempty ts w
                  \<and> list_all (\<lambda>(a, r). nonempty_string a \<and> nonempty_string r)
                       (passed_to_updateTokens tr w w3)
                 \<longrightarrow> tokens_nonempty ts w3))"
proof -
  have init: "tokens_nonempty ts (w\<lparr>storage := Map.empty\<rparr>)"
    using assms by (simp add: tokens_nonempty_def getToken_def getRefreshToken_def getItem_def)
  show ?thesis
    using init updateTokens_all_nonempty[of ps ts w]
      fetchActiveDevices_store_is_passed_pairs[of ts tr w res w']
      disconnectDeviceById_store_is_passed_pairs[of ts tr i w res2 w2]
      request_store_is_passed_pairs[of ts tr req w res3 w3]
      passed_pairs_nonempty[of w' tr w ts] passed_pairs_nonempty[of w2 tr w ts]
      passed_pairs_nonempty[of w3 tr w ts]
    by blast
qed

theorem tokens_stay_nonempty_witness:
  "defaultToken store0 \<noteq> [] \<and> defaultRefreshToken store0 \<noteq> []
   \<and> tokens_nonempty store0 world0
   \<and> list_all (\<lambda>(a, r). a \<noteq> [] \<and> r \<noteq> []) [(''11'', ''22'')]
   \<and> tokens_nonempty store0 (updateTokens_all [(''11'', ''22'')] world0)
   \<and> (\<exists>res w'. fetchActiveDevices store0 expired_once world0 = Some (res, w')
         \<and> passed_to_updateTokens expired_once world0 w' = [(Some ''11'', Some ''22'')]
         \<and> storage w' = [''Token'' \<mapsto> ''11'', ''RefreshToken'' \<mapsto> ''22'']
         \<and> tokens_nonempty store0 w')"
proof -
  let ?W = "\<lparr>storage = [KEY_TOKEN \<mapsto> ''11'', KEY_REFRESH_TOKEN \<mapsto> ''22''],
            calls = [authorized ''t0'' devicesRequest, authorized ''t0'' (tokenRequest ''r0''),
                     authorized ''11'' devicesRequest],
            logs = [''start fetching devices.'', ''token expired, refreshing'',
                    ''token refreshed, start resending request'', ''fetched devices: macOS''],
            aborted = False\<rparr>"
  have d: "defaultToken store0 \<noteq> []" "defaultRefreshToken store0 \<noteq> []"
    by (simp_all add: store0_def)
  have e: "world0\<lparr>storage := Map.empty\<rparr> = world0"
    by (simp add: world0_def)
  have l: "list_all (\<lambda>(a, r). a \<noteq> [] \<and> r \<noteq> []) [(''11'', ''22'')]" by simp
  have n: "list_all (\<lambda>(a, r). nonempty_string a \<and> nonempty_string r)
             (passed_to_updateTokens expired_once world0 ?W)"
    by (simp add: expired_once_passed nonempty_string_def)
  note t = tokens_stay_nonempty[OF d, where w = world0 and ps = "[(''11'', ''22'')]"
      and tr = expired_once and res = "Inr [\<lparr>id_num = 123, name = ''macOS''\<rparr>]" and w' = ?W]
  from t have i: "tokens_nonempty store0 world0" by (simp add: e)
  from t l i have u: "tokens_nonempty store0 (updateTokens_all [(''11'', ''22'')] world0)"
    by blast
  from t expired_once_fetch i n have "tokens_nonempty store0 ?W" by blast
  moreover have "storage ?W = [''Token'' \<mapsto> ''11'', ''RefreshToken'' \<mapsto> ''22'']"
    by (simp add: KEY_TOKEN_def KEY_REFRESH_TOKEN_def)
  ultimately
  have "\<exists>res w'. fetchActiveDevices store0 expired_once world0 = Some (res, w')
         \<and> passed_to_updateTokens expired_once world0 w' = [(Some ''11'', Some ''22'')]
         \<and> storage w' = [''Token'' \<mapsto> ''11'', ''RefreshToken'' \<mapsto> ''22'']
         \<and> tokens_nonempty store0 w'"
    using expired_once_fetch expired_once_passed by blast
  with d l i u show ?thesis by blast
qed

text \<open>
  The claim as stated allows any strings in the refresh response.  The pair of empty strings
  is stored as it is, and both reads return the empty string afterwards.
\<close>

theorem blank_refresh_empties_tokens:
  "defaultToken store0 \<noteq> [] \<and> defaultRefreshToken store0 \<noteq> [] \<and> storage world0 = Map.empty
   \<and> map_option (\<lambda>(res, w'). (res, getToken store0 w', getRefreshToken store0 w'))
        (fetchActiveDevices store0 blank_refresh world0) =
      Some (Inr [\<lparr>id_num = 123, name = ''macOS''\<rparr>], [], [])"
  by (simp add: fetchActiveDevices_def request.simps scenario_defs fetch_def ok_def logger_def
      updateTokens_def setItem_def getToken_def getRefreshToken_def getItem_def KEY_TOKEN_def
      KEY_REFRESH_TOKEN_def)

text \<open>
  Nothing checks the pair on its way to the store: of an answer with the empty string as
  token and no refresh token, the empty token is stored.  A pair that answers another call
  than a refresh call is not passed to \<open>updateTokens\<close> at all.
\<close>

lemma half_pair_is_stored_unchecked:
  "map_option (\<lambda>(res, w'). (res, getToken store0 w', getRefreshToken store0 w',
                 passed_to_updateTokens
                   (\<lambda>k. if k = 0 then Responds unauthorized
                        else if k = 1 then Responds \<lparr>status = 200, json = TokenData (Some []) None\<rparr>
                        else Responds listing) world0 w'))
     (fetchActiveDevices store0
        (\<lambda>k. if k = 0 then Responds unauthorized
             else if k = 1 then Responds \<lparr>status = 200, json = TokenData (Some []) None\<rparr>
             else Responds listing) world0) =
   Some (Inr [\<lparr>id_num = 123, name = ''macOS''\<rparr>], [], ''r0'', [(Some [], None)])"
  by (simp add: fetchActiveDevices_def request.simps scenario_defs fetch_def ok_def logger_def
      updateTokens_any_def setItem_any_def getToken_def getRefreshToken_def getItem_def
      KEY_TOKEN_def KEY_REFRESH_TOKEN_def passed_to_updateTokens_def pairs_between_def
      refresh_answer_def upt_rec authorized_def devicesRequest_def tokenRequest_def)

lemma blank_pair_to_devices_request_is_not_stored:
  "map_option (\<lambda>(res, w'). (storage w' = storage world0,
                 passed_to_updateTokens (\<lambda>k. Responds blank_pair) world0 w'))
     (fetchActiveDevices store0 (\<lambda>k. Responds blank_pair) world0) =
   Some (True, [])"
  by (simp add: fetchActiveDevices_def request.simps scenario_defs fetch_def ok_def logger_def
      getToken_def getRefreshToken_def getItem_def
      passed_to_updateTokens_def pairs_between_def
      refresh_answer_def upt_rec authorized_def devicesRequest_def)

section \<open>Disposal of the client\<close>

lemma client_calls_aborted:
  assumes "aborted w"
  shows "fetchActiveDevices ts tr w = Some (Inl AbortError, logger ''start fetching devices.'' w)"
    and "disconnectDeviceById ts tr i w =
           Some (Inl AbortError, logger (''disconnecting device of id: '' @ string_of_int i) w)"
  using assms by (simp_all add: fetchActiveDevices_def disconnectDeviceById_def request_aborted)

lemma client_calls_disposed:
  assumes "tr k = Disposes" "length (calls w) \<le> k"
  shows "\<exists>res w'. fetchActiveDevices ts tr w = Some (res, w') \<and>
            (k < length (calls w') \<longrightarrow> res = Inl AbortError)"
    and "\<exists>res w'. disconnectDeviceById ts tr i w = Some (res, w') \<and>
            (k < length (calls w') \<longrightarrow> res = Inl AbortError)"
proof -
  have le: "length (calls (logger s w)) \<le> k" for s using assms(2) by simp
  from request_disposed[where tr = tr and k = k and ts = ts and req = devicesRequest,
      OF assms(1) le[of "''start fetching devices.''"]]
  show "\<exists>res w'. fetchActiveDevices ts tr w = Some (res, w') \<and>
            (k < length (calls w') \<longrightarrow> res = Inl AbortError)"
    by (auto simp: fetchActiveDevices_def split: sum.splits payload.splits)
  from request_disposed[where tr = tr and k = k and ts = ts and req = "deviceRequest i",
      OF assms(1) le[of "''disconnecting device of id: '' @ string_of_int i"]]
  show "\<exists>res w'. disconnectDeviceById ts tr i w = Some (res, w') \<and>
            (k < length (calls w') \<longrightarrow> res = Inl AbortError)"
    by (auto simp: disconnectDeviceById_def split: sum.splits)
qed

text \<open>
  Claim C9.  \<open>dispose\<close> is idempotent.  After it, \<open>fetchActiveDevices\<close> and
  \<open>disconnectDeviceById\<close> fail with \<open>AbortError\<close> whatever the transport would answer.
  A call in flight: if the host disposes the client while call number \<open>k\<close> is pending, an
  operation that had started before returns, and if call \<open>k\<close> is one of its own calls it
  fails with \<open>AbortError\<close>.
\<close>

theorem dispose_aborts_calls:
  "dispose (dispose w) = dispose w
   \<and> fetchActiveDevices ts tr (dispose w) =
       Some (Inl AbortError, logger ''start fetching devices.'' (dispose w))
   \<and> disconnectDeviceById ts tr i (dispose w) =
       Some (Inl AbortError,
             logger (''disconnecting device of id: '' @ string_of_int i) (dispose w))
   \<and> (tr k = Disposes \<and> length (calls w) \<le> k \<longrightarrow>
        (\<exists>res w'. fetchActiveDevices ts tr w = Some (res, w') \<and>
            (k < length (calls w') \<longrightarrow> res = Inl AbortError)))
   \<and> (tr k = Disposes \<and> length (calls w) \<le> k \<longrightarrow>
        (\<exists>res w'. disconnectDeviceById ts tr i w = Some (res, w') \<and>
            (k < length (calls w') \<longrightarrow> res = Inl AbortError)))"
proof -
  have "aborted (dispose w)" by (simp add: dispose_def)
  note after = client_calls_aborted[OF this]
  show ?thesis
    using client_calls_disposed(1)[where tr = tr and k = k and w = w and ts = ts]
      client_calls_disposed(2)[where tr = tr and k = k and w = w and ts = ts and i = i]
    by (simp add: after) (simp add: dispose_def)
qed

lemma disposed_in_refresh_run:
  "fetchActiveDevices store0 disposed_in_refresh world0 =
     Some (Inl AbortError,
           \<lparr>storage = Map.empty,
            calls = [authorized ''t0'' devicesRequest, authorized ''t0'' (tokenRequest ''r0'')],
            logs = [''start fetching devices.'', ''token expired, refreshing''],
            aborted = True\<rparr>)"
  by (simp add: fetchActiveDevices_def request.simps scenario_defs fetch_def ok_def logger_def
      getToken_def getRefreshToken_def getItem_def)

theorem dispose_aborts_calls_witness:
  "disposed_in_refresh 1 = Disposes \<and> length (calls world0) \<le> 1
   \<and> (\<exists>res w'. fetchActiveDevices store0 disposed_in_refresh world0 = Some (res, w')
         \<and> 1 < length (calls w') \<and> res = Inl AbortError)
   \<and> fetchActiveDevices store0 expired_once (dispose world0) =
       Some (Inl AbortError, logger ''start fetching devices.'' (dispose world0))"
proof -
  have h: "disposed_in_refresh 1 = Disposes \<and> length (calls world0) \<le> 1"
    by (simp add: scenario_defs)
  note t = dispose_aborts_calls[of world0 store0 disposed_in_refresh 111 1]
  note t' = dispose_aborts_calls[of world0 store0 expired_once 111 1]
  from t h obtain res w' where
    "fetchActiveDevices store0 disposed_in_refresh world0 = Some (res, w')"
    "1 < length (calls w') \<longrightarrow> res = Inl AbortError"
    by blast
  with disposed_in_refresh_run have
    "\<exists>res w'. fetchActiveDevices store0 disposed_in_refresh world0 = Some (res, w')
         \<and> 1 < length (calls w') \<and> res = Inl AbortError"
    by simp
  with t' h show ?thesis by blast
qed

section \<open>The two versions of the pipeline\<close>

text \<open>Where the first answer is not a 401 the two versions do the same.\<close>

lemma pipelines_agree_without_401:
  assumes "\<not> aborted w" and "status (answers (length (calls w))) \<noteq> 401"
  shows "request ts (\<lambda>k. Responds (answers k)) req w = main_request ts answers req w"
proof (cases "ok (answers (length (calls w)))")
  case True
  with assms show ?thesis
    by (subst main_request.simps) (simp add: request_ok fetch_main_def)
next
  case False
  with assms show ?thesis
    by (subst main_request.simps) (simp add: request_other fetch_main_def)
qed

text \<open>
  Claim C2 states that the pipeline nested in \<open>main\<close> and the pipeline of the class issue
  the same calls.  They do not: after 401 and a successful refresh, the class resends the
  devices request, the first version sends the token request a second time and returns the
  answer to it.
\<close>

theorem first_version_resends_token_request:
  "map_option (\<lambda>(res, w'). (res, map url (calls w'), map method_name (calls w')))
     (main_request store0 answers_expired_once devicesRequest world0) =
   Some (Inr listing,
         [''https://user-api.setapp.com/v1/devices'', ''https://user-api.setapp.com/v1/token'',
          ''https://user-api.setapp.com/v1/token''],
         [''GET'', ''POST'', ''POST''])
   \<and> map_option (\<lambda>(res, w'). (res, map url (calls w'), map method_name (calls w')))
     (request store0 (\<lambda>k. Responds (answers_expired_once k)) devicesRequest world0) =
   Some (Inr listing,
         [''https://user-api.setapp.com/v1/devices'', ''https://user-api.setapp.com/v1/token'',
          ''https://user-api.setapp.com/v1/devices''],
         [''GET'', ''POST'', ''GET''])"
  by (simp add: main_request.simps request.simps scenario_defs fetch_def fetch_main_def ok_def
      logger_def updateTokens_def setItem_def getToken_def getRefreshToken_def getItem_def
      KEY_TOKEN_def KEY_REFRESH_TOKEN_def authorized_def tokenRequest_def devicesRequest_def)

end
